theory Spec2Isabelle
  imports Complex_Main
begin

section \<open>Values and types of the flag engine\<close>

text \<open>
  The engine stores flag values through \<^verbatim>\<open>reflect\<close>: every binding has a static Go type
  (\<^verbatim>\<open>flagType\<close>) and writes into a variable owned by the caller.  The types a binding can
  have are enumerated here; \<open>TOther\<close> stands for any type whose kind the converter does
  not list (structs, maps, pointers, ...), identified by its name.
\<close>

datatype gotype =
    TString | TBool
  | TInt | TInt8 | TInt16 | TInt32 | TInt64 | TDuration
  | TUint | TUint8 | TUint16 | TUint32 | TUint64
  | TFloat32 | TFloat64
  | TSlice gotype
  | TOther string

text \<open>\<^verbatim>\<open>reflect.Kind\<close>: \<^verbatim>\<open>time.Duration\<close> is a named type of kind \<^verbatim>\<open>Int64\<close>.\<close>

datatype Kind =
    KString | KBool
  | KInt | KInt8 | KInt16 | KInt32 | KInt64
  | KUint | KUint8 | KUint16 | KUint32 | KUint64
  | KFloat32 | KFloat64
  | KSlice | KOther

fun kindOf :: "gotype \<Rightarrow> Kind" where
  "kindOf TString = KString"
| "kindOf TBool = KBool"
| "kindOf TInt = KInt"
| "kindOf TInt8 = KInt8"
| "kindOf TInt16 = KInt16"
| "kindOf TInt32 = KInt32"
| "kindOf TInt64 = KInt64"
| "kindOf TDuration = KInt64"
| "kindOf TUint = KUint"
| "kindOf TUint8 = KUint8"
| "kindOf TUint16 = KUint16"
| "kindOf TUint32 = KUint32"
| "kindOf TUint64 = KUint64"
| "kindOf TFloat32 = KFloat32"
| "kindOf TFloat64 = KFloat64"
| "kindOf (TSlice t) = KSlice"
| "kindOf (TOther n) = KOther"

text \<open>
  \<^verbatim>\<open>reflect.Type.Bits\<close> for the numeric kinds.  \<^verbatim>\<open>int\<close> and \<^verbatim>\<open>uint\<close> are taken to be 64 bits
  wide (a 64-bit platform).
\<close>

fun Bits :: "gotype \<Rightarrow> nat" where
  "Bits TInt = 64"
| "Bits TInt8 = 8"
| "Bits TInt16 = 16"
| "Bits TInt32 = 32"
| "Bits TInt64 = 64"
| "Bits TDuration = 64"
| "Bits TUint = 64"
| "Bits TUint8 = 8"
| "Bits TUint16 = 16"
| "Bits TUint32 = 32"
| "Bits TUint64 = 64"
| "Bits TFloat32 = 32"
| "Bits TFloat64 = 64"
| "Bits _ = 0"

text \<open>
  The contents of a variable.  Signed and unsigned integers are kept as mathematical
  integers (the converters below enforce the width); a floating-point variable holds the
  real number its bits denote; \<open>VOpaque\<close> is the content of a variable of any other type.
\<close>

datatype val =
    VString string
  | VBool bool
  | VInt int
  | VUint nat
  | VFloat real
  | VStrings "string list"
  | VOpaque nat

subsection \<open>Errors\<close>

datatype numerr = ErrSyntax | ErrRange

text \<open>
  Errors are kept structured instead of being rendered to text: \<open>NumError fn num e\<close> is
  \<^verbatim>\<open>strconv.NumError\<close>; the three duration errors are the three messages of
  \<^verbatim>\<open>time.ParseDuration\<close>; the others are the errors the engine builds itself.  \<open>UserError\<close> is
  an error made by a hook, a handler or a custom \<^verbatim>\<open>Set\<close> method.
\<close>

datatype error =
    NumError string string numerr
  | InvalidDuration string
  | MissingUnit string
  | UnknownUnit string string
  | UnsupportedSliceType Kind
  | UnsupportedFlagType Kind
  | UnknownFlag string
  | RequiresValue string
  | InvalidValue string string error
  | FlagError string error
  | RequiredFlagNotSet string
  | ArgumentError string error
  | RequiredArgumentMissing string
  | TooManyArguments nat nat
  | CommandNotFoundError string nat
  | UserError string

section \<open>The text converters of the Go library\<close>

text \<open>
  \<^verbatim>\<open>setValue\<close> hands every token to a converter of Go's standard library
  (\<^verbatim>\<open>strconv.ParseBool\<close>, \<^verbatim>\<open>ParseInt\<close>, \<^verbatim>\<open>ParseUint\<close>, \<^verbatim>\<open>ParseFloat\<close>, \<^verbatim>\<open>time.ParseDuration\<close>).
  They are not code of the repository; the definitions below follow the library's source,
  restricted to base 10, and keep its loops, its overflow checks and the order of its
  checks.
\<close>

subsection \<open>\<^verbatim>\<open>strconv.ParseBool\<close>\<close>

definition ParseBool :: "string \<Rightarrow> error + bool" where
  "ParseBool str =
     (if str \<in> set [''1'', ''t'', ''T'', ''true'', ''TRUE'', ''True''] then Inr True
      else if str \<in> set [''0'', ''f'', ''F'', ''false'', ''FALSE'', ''False''] then Inr False
      else Inl (NumError ''ParseBool'' str ErrSyntax))"

subsection \<open>\<^verbatim>\<open>strconv.ParseUint\<close> and \<^verbatim>\<open>strconv.ParseInt\<close> in base 10\<close>

definition isDigit :: "char \<Rightarrow> bool" where
  "isDigit c = (c \<in> set ''0123456789'')"

definition digitVal :: "char \<Rightarrow> nat" where
  "digitVal c = of_char c - 48"

definition maxUint64 :: nat where
  "maxUint64 = 2 ^ 64 - 1"

text \<open>
  The digit loop of \<^verbatim>\<open>ParseUint\<close>.  \<open>n\<close> is the \<^verbatim>\<open>uint64\<close> accumulator; \<open>n * 10 + d\<close> is
  computed modulo \<open>2 ^ 64\<close> as the machine does, and the loop returns at the first
  character that is not a digit (syntax) or that overflows (range).
\<close>

fun parseUintLoop :: "nat \<Rightarrow> string \<Rightarrow> nat \<Rightarrow> numerr + nat" where
  "parseUintLoop maxVal [] n = Inr n"
| "parseUintLoop maxVal (c # cs) n =
     (if \<not> isDigit c then Inl ErrSyntax
      else if n \<ge> maxUint64 div 10 + 1 then Inl ErrRange
      else let n' = n * 10; n1 = (n' + digitVal c) mod 2 ^ 64
           in if n1 < n' \<or> n1 > maxVal then Inl ErrRange
              else parseUintLoop maxVal cs n1)"

text \<open>\<open>bitSize\<close> is between 1 and 64 at every call site of the engine.\<close>

definition ParseUint :: "string \<Rightarrow> nat \<Rightarrow> error + nat" where
  "ParseUint s bitSize =
     (if s = [] then Inl (NumError ''ParseUint'' s ErrSyntax)
      else case parseUintLoop (2 ^ bitSize - 1) s 0 of
             Inl e \<Rightarrow> Inl (NumError ''ParseUint'' s e)
           | Inr n \<Rightarrow> Inr n)"

definition ParseInt :: "string \<Rightarrow> nat \<Rightarrow> error + int" where
  "ParseInt s0 bitSize =
     (case s0 of
        [] \<Rightarrow> Inl (NumError ''ParseInt'' s0 ErrSyntax)
      | c # cs \<Rightarrow>
          let neg = (c = CHR ''-'');
              s = (if c = CHR ''+'' \<or> c = CHR ''-'' then cs else s0);
              cutoff = (2::nat) ^ (bitSize - 1)
          in case ParseUint s bitSize of
               Inl (NumError f n ErrSyntax) \<Rightarrow> Inl (NumError ''ParseInt'' s0 ErrSyntax)
             | Inl _ \<Rightarrow> Inl (NumError ''ParseInt'' s0 ErrRange)
             | Inr un \<Rightarrow>
                 if \<not> neg \<and> un \<ge> cutoff then Inl (NumError ''ParseInt'' s0 ErrRange)
                 else if neg \<and> un > cutoff then Inl (NumError ''ParseInt'' s0 ErrRange)
                 else Inr (if neg then - int un else int un))"

subsection \<open>Library functions taken as parameters\<close>

text \<open>
  Four pieces of behaviour come from outside the repository and are not computed here; every
  definition that reaches one of them takes the record \<open>L\<close> as a parameter, so every theorem
  holds whatever they do:
  \<^item> \<open>ParseFloat s bitSize\<close> is \<^verbatim>\<open>strconv.ParseFloat\<close>;
  \<^item> \<open>fracNanos f unit scale\<close> is the \<^verbatim>\<open>float64\<close> expression
    \<^verbatim>\<open>uint64(float64(f) * (float64(unit) / scale))\<close> of \<^verbatim>\<open>time.ParseDuration\<close>;
  \<^item> \<open>Convert d t\<close> is \<^verbatim>\<open>reflect\<close>'s conversion of the dynamic value \<open>d\<close> to type \<open>t\<close>:
    \<open>None\<close> when \<^verbatim>\<open>ConvertibleTo\<close> is false, the converted value otherwise;
  \<^item> \<open>setMethod n\<close> is the \<^verbatim>\<open>Set(string) error\<close> method of the type named \<open>n\<close>, when the
    type has one: from the token and the current content to the returned error and the new
    content.
\<close>

text \<open>A value of type \<^verbatim>\<open>interface{}\<close>: nil, a pointer to a variable, or a plain value.\<close>

datatype iface = INil | IPtr nat | IVal gotype val

record golib =
  ParseFloat :: "string \<Rightarrow> nat \<Rightarrow> error + real"
  fracNanos :: "nat \<Rightarrow> nat \<Rightarrow> nat \<Rightarrow> nat"
  Convert :: "iface \<Rightarrow> gotype \<Rightarrow> val option"
  setMethod :: "string \<Rightarrow> (string \<Rightarrow> val \<Rightarrow> error option \<times> val) option"

subsection \<open>\<^verbatim>\<open>time.ParseDuration\<close>\<close>

text \<open>\<^verbatim>\<open>leadingInt\<close>: the leading digits as a number; \<open>None\<close> is its overflow error.\<close>

fun leadingInt :: "string \<Rightarrow> nat \<Rightarrow> (nat \<times> string) option" where
  "leadingInt [] x = Some (x, [])"
| "leadingInt (c # cs) x =
     (if \<not> isDigit c then Some (x, c # cs)
      else if x > 2 ^ 63 div 10 then None
      else let x' = x * 10 + digitVal c
           in if x' > 2 ^ 63 then None else leadingInt cs x')"

text \<open>
  \<^verbatim>\<open>leadingFraction\<close>: the digits after the point, with the power of ten that scales
  them; digits beyond what fits are read and dropped.
\<close>

fun leadingFraction :: "string \<Rightarrow> nat \<Rightarrow> nat \<Rightarrow> bool \<Rightarrow> nat \<times> nat \<times> string" where
  "leadingFraction [] x scale overflow = (x, scale, [])"
| "leadingFraction (c # cs) x scale overflow =
     (if \<not> isDigit c then (x, scale, c # cs)
      else if overflow then leadingFraction cs x scale True
      else if x > (2 ^ 63 - 1) div 10 then leadingFraction cs x scale True
      else let y = x * 10 + digitVal c
           in if y > 2 ^ 63 then leadingFraction cs x scale True
              else leadingFraction cs y (scale * 10) False)"

text \<open>The unit table, in nanoseconds; the two spellings of the micro sign are UTF-8.\<close>

definition unitMap :: "(string \<times> nat) list" where
  "unitMap =
     [(''ns'', 1),
      (''us'', 1000),
      ([CHR 0xC2, CHR 0xB5, CHR ''s''], 1000),
      ([CHR 0xCE, CHR 0xBC, CHR ''s''], 1000),
      (''ms'', 1000000),
      (''s'', 1000000000),
      (''m'', 60000000000),
      (''h'', 3600000000000)]"

definition unitChar :: "char \<Rightarrow> bool" where
  "unitChar c = (\<not> (c = CHR ''.'' \<or> isDigit c))"

lemma leadingInt_length: "leadingInt s x = Some (v, r) \<Longrightarrow> length r \<le> length s"
  by (induction s x rule: leadingInt.induct) (auto simp: Let_def split: if_splits)

lemma leadingFraction_length: "leadingFraction s x sc ov = (f, sc', r) \<Longrightarrow> length r \<le> length s"
  by (induction s x sc ov rule: leadingFraction.induct) (auto simp: Let_def split: if_splits)

text \<open>The optional \<^verbatim>\<open>(\.[0-9]*)?\<close> of a group: fraction, scale, rest, and whether a digit was read.\<close>

definition fractionPart :: "string \<Rightarrow> nat \<times> nat \<times> string \<times> bool" where
  "fractionPart s1 =
     (if s1 \<noteq> [] \<and> hd s1 = CHR ''.''
      then case leadingFraction (tl s1) 0 1 False of
             (f, scale, r) \<Rightarrow> (f, scale, r, length (tl s1) \<noteq> length r)
      else (0, 1, s1, False))"

lemma fractionPart_length: "fractionPart s1 = (f, scale, s2, post) \<Longrightarrow> length s2 \<le> length s1"
  by (auto simp: fractionPart_def split: if_splits prod.splits dest!: leadingFraction_length)

text \<open>
  One turn of the loop of \<^verbatim>\<open>ParseDuration\<close>: a group \<^verbatim>\<open>[0-9]*(\.[0-9]*)?[a-z]+\<close> is read
  from the front of \<open>s\<close>; the result is the group's value in nanoseconds and the rest of
  the string.
\<close>

definition durationGroup :: "golib \<Rightarrow> string \<Rightarrow> string \<Rightarrow> error + (nat \<times> string)" where
  "durationGroup L orig s =
     (if \<not> (hd s = CHR ''.'' \<or> isDigit (hd s)) then Inl (InvalidDuration orig)
      else case leadingInt s 0 of
        None \<Rightarrow> Inl (InvalidDuration orig)
      | Some (v, s1) \<Rightarrow>
          (case fractionPart s1 of (f, scale, s2, post) \<Rightarrow>
             if length s = length s1 \<and> \<not> post then Inl (InvalidDuration orig)
             else let u = takeWhile unitChar s2; s3 = dropWhile unitChar s2
                  in if u = [] then Inl (MissingUnit orig)
                     else case map_of unitMap u of
                       None \<Rightarrow> Inl (UnknownUnit u orig)
                     | Some unit \<Rightarrow>
                         if v > 2 ^ 63 div unit then Inl (InvalidDuration orig)
                         else let v1 = v * unit;
                                  v2 = (if f > 0 then (v1 + fracNanos L f unit scale) mod 2 ^ 64 else v1)
                              in if f > 0 \<and> v2 > 2 ^ 63 then Inl (InvalidDuration orig)
                                 else Inr (v2, s3)))"

lemma durationGroup_shorter:
  assumes "durationGroup L orig s = Inr (v, r)"
  shows "length r < length s"
proof -
  from assms obtain v0 s1 where li: "leadingInt s 0 = Some (v0, s1)"
    by (auto simp: durationGroup_def split: if_splits option.splits)
  obtain f scale s2 post where fr: "fractionPart s1 = (f, scale, s2, post)"
    by (cases "fractionPart s1") auto
  have l1: "length s1 \<le> length s" using li by (rule leadingInt_length)
  have l2: "length s2 \<le> length s1" using fr by (rule fractionPart_length)
  from assms li fr have u: "takeWhile unitChar s2 \<noteq> []" and r: "r = dropWhile unitChar s2"
    by (auto simp: durationGroup_def Let_def split: if_splits option.splits)
  have "length (takeWhile unitChar s2) + length (dropWhile unitChar s2) = length s2"
    by (metis length_append takeWhile_dropWhile_id)
  with u have "length (dropWhile unitChar s2) < length s2"
    by (cases "takeWhile unitChar s2") auto
  with r l1 l2 show ?thesis by simp
qed

text \<open>The loop itself; \<open>d\<close> is the \<^verbatim>\<open>uint64\<close> sum so far.\<close>

function durationLoop :: "golib \<Rightarrow> string \<Rightarrow> string \<Rightarrow> nat \<Rightarrow> error + nat" where
  "durationLoop L orig s d =
     (if s = [] then Inr d
      else case durationGroup L orig s of
        Inl e \<Rightarrow> Inl e
      | Inr (v, s') \<Rightarrow>
          let d' = (d + v) mod 2 ^ 64
          in if d' > 2 ^ 63 then Inl (InvalidDuration orig)
             else durationLoop L orig s' d')"
  by pat_completeness auto
termination
  by (relation "measure (\<lambda>(L, orig, s, d). length s)") (auto dest: durationGroup_shorter)

text \<open>
  \<^verbatim>\<open>ParseDuration\<close>: an optional sign, the special case \<^verbatim>\<open>"0"\<close>, then the groups.  The
  result is the \<^verbatim>\<open>int64\<close> number of nanoseconds.
\<close>

definition ParseDuration :: "golib \<Rightarrow> string \<Rightarrow> error + int" where
  "ParseDuration L orig =
     (let neg = (orig \<noteq> [] \<and> hd orig = CHR ''-'');
          s = (if orig \<noteq> [] \<and> (hd orig = CHR ''-'' \<or> hd orig = CHR ''+'') then tl orig else orig)
      in if s = ''0'' then Inr 0
         else if s = [] then Inl (InvalidDuration orig)
         else case durationLoop L orig s 0 of
                Inl e \<Rightarrow> Inl e
              | Inr d \<Rightarrow>
                  if neg then Inr (- int d)
                  else if d > 2 ^ 63 - 1 then Inl (InvalidDuration orig)
                  else Inr (int d))"

section \<open>The data model\<close>

text \<open>
  Go pointers are modelled by addresses into explicit stores: an \<open>addr\<close> is a pointer to a
  variable owned by the caller, an \<open>fref\<close> is a \<^verbatim>\<open>*Flag\<close> and a \<open>cref\<close> is a \<^verbatim>\<open>*Command\<close>.
\<close>

type_synonym addr = nat
type_synonym fref = nat
type_synonym cref = nat
type_synonym storage = "addr \<Rightarrow> val"

text \<open>
  \<^verbatim>\<open>Flag\<close>.  The field \<^verbatim>\<open>value\<close> (a \<^verbatim>\<open>reflect.Value\<close> of the caller's variable) is the address
  \<open>valuePtr\<close>; the field \<^verbatim>\<open>set\<close> is \<open>wasSet\<close>.
\<close>

record Flag =
  names :: "string list"
  flagType :: gotype
  defValue :: iface
  usage :: string
  valuePtr :: addr
  required :: bool
  hidden :: bool
  wasSet :: bool

text \<open>\<^verbatim>\<open>FlagSet\<close> has the single field \<^verbatim>\<open>flags []*Flag\<close>.\<close>

type_synonym FlagSet = "fref list"

record Argument =
  Name :: string
  Description :: string
  Required :: bool

text \<open>
  User code.  A hook gets the executing command and may read and write the caller's
  variables; it returns an error or nil.  A handler (\<^verbatim>\<open>action\<close>) is described by the types of
  its parameters after \<^verbatim>\<open>ctx\<close> and \<^verbatim>\<open>cmd\<close>: the fixed ones, and the element type of the
  trailing variadic one if the function is variadic; its body gets the fixed arguments and
  the variadic ones.
\<close>

type_synonym hook = "cref \<Rightarrow> storage \<Rightarrow> error option \<times> storage"

record handler =
  fixedParams :: "gotype list"
  variadicElem :: "gotype option"
  body :: "cref \<Rightarrow> val list \<Rightarrow> val list \<Rightarrow> storage \<Rightarrow> error option \<times> storage"

text \<open>\<^verbatim>\<open>Command\<close>.  The map \<^verbatim>\<open>subcommands\<close> is an association list read with \<open>map_of\<close>.\<close>

record Command =
  name :: string
  description :: string
  args :: "Argument list"
  flags :: FlagSet
  subcommands :: "(string \<times> cref) list"
  parent :: "cref option"
  action :: "handler option"
  hiddenCmd :: bool
  persistentPreRun :: "hook option"
  preRun :: "hook option"
  postRun :: "hook option"
  persistentPostRun :: "hook option"
  helpEnabled :: bool
  helpFlag :: string
  helpShort :: string

text \<open>
  The trace is not part of the program: the model appends an event each time the engine
  calls user code or prints help, so that which hooks ran, in which order and how often can
  be stated.
\<close>

datatype event =
    EvPersistentPreRun cref
  | EvPreRun cref
  | EvAction cref "val list" "val list"
  | EvPostRun cref
  | EvPersistentPostRun cref
  | EvHelp cref

text \<open>
  The state: the caller's variables and their static types, the heap of \<^verbatim>\<open>Flag\<close> objects
  with its allocation pointer, the heap of \<^verbatim>\<open>Command\<close> objects, and the trace.
\<close>

record state =
  vars :: storage
  varType :: "addr \<Rightarrow> gotype"
  flagObjs :: "fref \<Rightarrow> Flag"
  nextFlag :: fref
  cmds :: "cref \<Rightarrow> Command"
  trace :: "event list"

text \<open>A call either returns or panics; nothing in the repository recovers a panic.\<close>

datatype 'a outcome = Return 'a | Panicked string

section \<open>The typed-value converter\<close>

definition intKinds :: "Kind list" where
  "intKinds = [KInt, KInt8, KInt16, KInt32, KInt64]"

definition uintKinds :: "Kind list" where
  "uintKinds = [KUint, KUint8, KUint16, KUint32, KUint64]"

definition floatKinds :: "Kind list" where
  "floatKinds = [KFloat32, KFloat64]"

definition stringsOf :: "val \<Rightarrow> string list" where
  "stringsOf v = (case v of VStrings xs \<Rightarrow> xs | _ \<Rightarrow> [])"

text \<open>
  \<^verbatim>\<open>FlagSet.setValue\<close>.  The source is given the flag and writes through \<^verbatim>\<open>flag.value\<close>; here
  it is given the flag's type \<open>t\<close> and the current content \<open>cur\<close> of the variable, and returns
  the error and the variable's content afterwards (unchanged when the source does not write).
\<close>

definition setValue :: "golib \<Rightarrow> gotype \<Rightarrow> string \<Rightarrow> val \<Rightarrow> error option \<times> val" where
  "setValue L t value cur =
     (let k = kindOf t in
      if k = KString then (None, VString value)
      else if k = KBool then
        (case ParseBool value of Inl err \<Rightarrow> (Some err, cur) | Inr v \<Rightarrow> (None, VBool v))
      else if k \<in> set intKinds then
        (if t = TDuration then
           (case ParseDuration L value of Inl err \<Rightarrow> (Some err, cur) | Inr dur \<Rightarrow> (None, VInt dur))
         else
           (case ParseInt value (Bits t) of Inl err \<Rightarrow> (Some err, cur) | Inr v \<Rightarrow> (None, VInt v)))
      else if k \<in> set uintKinds then
        (case ParseUint value (Bits t) of Inl err \<Rightarrow> (Some err, cur) | Inr v \<Rightarrow> (None, VUint v))
      else if k \<in> set floatKinds then
        (case ParseFloat L value (Bits t) of Inl err \<Rightarrow> (Some err, cur) | Inr v \<Rightarrow> (None, VFloat v))
      else case t of
        TSlice e \<Rightarrow>
          if kindOf e = KString then (None, VStrings (stringsOf cur @ [value]))
          else (Some (UnsupportedSliceType (kindOf e)), cur)
      | TOther n \<Rightarrow>
          (case setMethod L n of
             Some m \<Rightarrow> m value cur
           | None \<Rightarrow> (Some (UnsupportedFlagType KOther), cur))
      | _ \<Rightarrow> (Some (UnsupportedFlagType k), cur))"

section \<open>The flag registry\<close>

definition PrimaryName :: "Flag \<Rightarrow> string" where
  "PrimaryName f = (case names f of [] \<Rightarrow> [] | n # _ \<Rightarrow> n)"

definition ShortName :: "Flag \<Rightarrow> string" where
  "ShortName f = (case names f of _ # n # _ \<Rightarrow> n | _ \<Rightarrow> [])"

definition HasName :: "Flag \<Rightarrow> string \<Rightarrow> bool" where
  "HasName f n = (n \<in> set (names f))"


text \<open>\<^verbatim>\<open>FlagSet.GetFlag\<close>: the first flag of the set that has the name.\<close>

definition GetFlag :: "state \<Rightarrow> FlagSet \<Rightarrow> string \<Rightarrow> fref option" where
  "GetFlag st fs n = find (\<lambda>p. HasName (flagObjs st p) n) fs"

section \<open>The tokenizer\<close>

definition HasPrefix :: "string \<Rightarrow> string \<Rightarrow> bool" where
  "HasPrefix s pre = (take (length pre) s = pre)"

text \<open>
  The head of the loop of \<^verbatim>\<open>Parse\<close>: strip \<^verbatim>\<open>--\<close> or \<^verbatim>\<open>-\<close>, then cut at the first \<^verbatim>\<open>=\<close>.
  The result is \<^verbatim>\<open>flagName\<close>, \<^verbatim>\<open>flagValue\<close> and \<^verbatim>\<open>hasValue\<close>.
\<close>

definition splitFlag :: "string \<Rightarrow> string \<times> string \<times> bool" where
  "splitFlag arg =
     (let nm = (if HasPrefix arg ''--'' then drop 2 arg else drop 1 arg)
      in if CHR ''='' \<in> set nm
         then (takeWhile (\<lambda>c. c \<noteq> CHR ''='') nm, tl (dropWhile (\<lambda>c. c \<noteq> CHR ''='') nm), True)
         else (nm, [], False))"

text \<open>\<^verbatim>\<open>fs.setValue(flag, value)\<close> on a flag of the heap: convert and write the variable.\<close>

definition setFlagValue :: "golib \<Rightarrow> fref \<Rightarrow> string \<Rightarrow> state \<Rightarrow> error option \<times> state" where
  "setFlagValue L p value st =
     (let flag = flagObjs st p
      in case setValue L (flagType flag) value (vars st (valuePtr flag)) of
           (err, v) \<Rightarrow> (err, st\<lparr>vars := (vars st)(valuePtr flag := v)\<rparr>))"

text \<open>\<^verbatim>\<open>flag.set = true\<close>.\<close>

definition markSet :: "fref \<Rightarrow> state \<Rightarrow> state" where
  "markSet p st = st\<lparr>flagObjs := (flagObjs st)(p := (flagObjs st p)\<lparr>wasSet := True\<rparr>)\<rparr>"

text \<open>
  \<^verbatim>\<open>FlagSet.Parse\<close>, as the loop over the arguments with the list \<open>remaining\<close> built so far.  On an
  error the source returns \<^verbatim>\<open>nil\<close> for the remaining tokens; the state is what the loop has
  made of it up to then.
\<close>

fun ParseLoop ::
  "golib \<Rightarrow> FlagSet \<Rightarrow> string list \<Rightarrow> string list \<Rightarrow> state \<Rightarrow> (error + string list) \<times> state"
where
  "ParseLoop L fs [] remaining st = (Inr remaining, st)"
| "ParseLoop L fs (arg # rest) remaining st =
     (if \<not> HasPrefix arg ''-'' then ParseLoop L fs rest (remaining @ [arg]) st
      else case splitFlag arg of (flagName, flagValue, hasValue) \<Rightarrow>
        (case GetFlag st fs flagName of
           None \<Rightarrow> (Inl (UnknownFlag flagName), st)
         | Some p \<Rightarrow>
             if kindOf (flagType (flagObjs st p)) = KBool then
               (if hasValue then
                  (case setFlagValue L p flagValue st of
                     (Some err, st') \<Rightarrow> (Inl (InvalidValue flagValue flagName err), st')
                   | (None, st') \<Rightarrow> ParseLoop L fs rest remaining (markSet p st'))
                else
                  ParseLoop L fs rest remaining
                    (markSet p (st\<lparr>vars := (vars st)(valuePtr (flagObjs st p) := VBool True)\<rparr>)))
             else if \<not> hasValue then (Inl (RequiresValue flagName), st)
             else
               (case setFlagValue L p flagValue st of
                  (Some err, st') \<Rightarrow> (Inl (InvalidValue flagValue flagName err), st')
                | (None, st') \<Rightarrow> ParseLoop L fs rest remaining (markSet p st'))))"

definition Parse :: "golib \<Rightarrow> FlagSet \<Rightarrow> string list \<Rightarrow> state \<Rightarrow> (error + string list) \<times> state" where
  "Parse L fs argv st = ParseLoop L fs argv [] st"

section \<open>The command tree\<close>

text \<open>\<^verbatim>\<open>Cmd\<close>: a new command; its flag set and its map of subcommands are empty, help is on.\<close>

definition Cmd :: "string \<Rightarrow> Command" where
  "Cmd nm =
     \<lparr>name = nm, description = [], args = [], flags = [], subcommands = [], parent = None,
      action = None, hiddenCmd = False, persistentPreRun = None, preRun = None, postRun = None,
      persistentPostRun = None, helpEnabled = True, helpFlag = ''help'', helpShort = ''h''\<rparr>"


text \<open>\<^verbatim>\<open>Command.AddCommand\<close>: sets the child's parent and enters it in the map under its name.\<close>

definition AddCommand :: "cref \<Rightarrow> cref \<Rightarrow> state \<Rightarrow> state" where
  "AddCommand c cmd st =
     (let st1 = st\<lparr>cmds := (cmds st)(cmd := (cmds st cmd)\<lparr>parent := Some c\<rparr>)\<rparr>;
          nm = name (cmds st1 cmd)
      in st1\<lparr>cmds := (cmds st1)(c := (cmds st1 c)
            \<lparr>subcommands := (nm, cmd) # filter (\<lambda>(k, _). k \<noteq> nm) (subcommands (cmds st1 c))\<rparr>)\<rparr>)"

text \<open>
  The walk \<^verbatim>\<open>for current != nil { ancestors = append([]*Command{current}, ancestors...);
  current = current.parent }\<close> of \<^verbatim>\<open>getAllFlags\<close> and \<^verbatim>\<open>executeAction\<close>.  Nothing in the code
  keeps the parent pointers from forming a cycle, on which the walk does not end: the
  result is \<open>None\<close> then, and \<open>Some\<close> of the chain from the root to the command otherwise.
\<close>

partial_function (option) ancestorsLoop ::
  "(cref \<Rightarrow> Command) \<Rightarrow> cref option \<Rightarrow> cref list \<Rightarrow> cref list option"
where
  "ancestorsLoop cs current ancestors =
     (case current of
        None \<Rightarrow> Some ancestors
      | Some cur \<Rightarrow> ancestorsLoop cs (parent (cs cur)) (cur # ancestors))"

text \<open>
  The body of the inner loop of \<^verbatim>\<open>getAllFlags\<close>: \<open>seen\<close> holds the primary names met so far
  (the keys of the map \<^verbatim>\<open>seen\<close>).
\<close>

definition seeFlag :: "state \<Rightarrow> fref list \<times> string list \<Rightarrow> fref \<Rightarrow> fref list \<times> string list" where
  "seeFlag st acc flag =
     (case acc of (allFlags, seen) \<Rightarrow>
        let primaryName = PrimaryName (flagObjs st flag)
        in if primaryName \<notin> set seen then (allFlags @ [flag], primaryName # seen)
           else (allFlags, seen))"

text \<open>The two loops over a chain given from the root to the command: it is read backwards.\<close>

definition collectFlags :: "state \<Rightarrow> cref list \<Rightarrow> fref list" where
  "collectFlags st ancestors =
     fst (foldl (\<lambda>acc cmd. foldl (seeFlag st) acc (flags (cmds st cmd))) ([], []) (rev ancestors))"

definition getAllFlags :: "state \<Rightarrow> cref \<Rightarrow> fref list option" where
  "getAllFlags st c =
     (case ancestorsLoop (cmds st) (Some c) [] of
        None \<Rightarrow> None
      | Some ancestors \<Rightarrow> Some (collectFlags st ancestors))"

text \<open>\<^verbatim>\<open>getCommandPath\<close>, recursive along the parent pointers.\<close>

partial_function (option) getCommandPath :: "(cref \<Rightarrow> Command) \<Rightarrow> cref \<Rightarrow> string option" where
  "getCommandPath cs c =
     (case parent (cs c) of
        None \<Rightarrow> Some (name (cs c))
      | Some p \<Rightarrow> Option.bind (getCommandPath cs p) (\<lambda>s. Some (s @ '' '' @ name (cs c))))"

text \<open>
  \<^verbatim>\<open>showHelp\<close> computes the command path and the effective flags and prints; the printed
  text is not modelled, the call is recorded in the trace.
\<close>

definition showHelp :: "cref \<Rightarrow> state \<Rightarrow> state option" where
  "showHelp c st =
     (case getCommandPath (cmds st) c of
        None \<Rightarrow> None
      | Some commandPath \<Rightarrow>
          (case getAllFlags st c of
             None \<Rightarrow> None
           | Some allFlags \<Rightarrow> Some (st\<lparr>trace := trace st @ [EvHelp c]\<rparr>)))"

section \<open>The argument binder\<close>

text \<open>\<^verbatim>\<open>reflect.Zero\<close> and the content of a variable made by \<^verbatim>\<open>reflect.New\<close>.\<close>

definition zeroValue :: "gotype \<Rightarrow> val" where
  "zeroValue t =
     (let k = kindOf t in
      if k = KString then VString []
      else if k = KBool then VBool False
      else if k \<in> set intKinds then VInt 0
      else if k \<in> set uintKinds then VUint 0
      else if k \<in> set floatKinds then VFloat 0
      else if k = KSlice then VStrings []
      else VOpaque 0)"

text \<open>\<^verbatim>\<open>convertArgument\<close>: \<^verbatim>\<open>setValue\<close> on a temporary flag over a fresh variable.\<close>

definition convertArgument :: "golib \<Rightarrow> string \<Rightarrow> gotype \<Rightarrow> error + val" where
  "convertArgument L arg targetType =
     (case setValue L targetType arg (zeroValue targetType) of
        (Some err, _) \<Rightarrow> Inl err
      | (None, tempVar) \<Rightarrow> Inr tempVar)"

text \<open>
  The loop over the fixed parameters (the same in both branches of \<^verbatim>\<open>callAction\<close>): \<open>ts\<close> are
  the types of the parameters from position \<open>i\<close> on, \<open>decl\<close> is \<^verbatim>\<open>c.args\<close>, \<open>callArgs\<close> the
  values bound so far.
\<close>

fun bindFixed ::
  "golib \<Rightarrow> Argument list \<Rightarrow> gotype list \<Rightarrow> nat \<Rightarrow> string list \<Rightarrow> val list \<Rightarrow> error + val list"
where
  "bindFixed L decl [] i argv callArgs = Inr callArgs"
| "bindFixed L decl (t # ts) i argv callArgs =
     (if i \<ge> length argv then
        (if i < length decl \<and> Required (decl ! i)
         then Inl (RequiredArgumentMissing (Name (decl ! i)))
         else bindFixed L decl ts (Suc i) argv (callArgs @ [zeroValue t]))
      else case convertArgument L (argv ! i) t of
             Inl err \<Rightarrow> Inl (ArgumentError (if i < length decl then Name (decl ! i) else []) err)
           | Inr argValue \<Rightarrow> bindFixed L decl ts (Suc i) argv (callArgs @ [argValue]))"

text \<open>The loop that fills the variadic slice from the tokens after the fixed ones.\<close>

fun bindVariadic :: "golib \<Rightarrow> gotype \<Rightarrow> string list \<Rightarrow> val list \<Rightarrow> error + val list" where
  "bindVariadic L elemType [] slice = Inr slice"
| "bindVariadic L elemType (a # rest) slice =
     (case convertArgument L a elemType of
        Inl err \<Rightarrow> Inl (ArgumentError [] err)
      | Inr argValue \<Rightarrow> bindVariadic L elemType rest (slice @ [argValue]))"

text \<open>The call of the handler itself, recorded in the trace.\<close>

definition invoke :: "handler \<Rightarrow> cref \<Rightarrow> val list \<Rightarrow> val list \<Rightarrow> state \<Rightarrow> error option outcome \<times> state" where
  "invoke h c fixed rest st =
     (case body h c fixed rest (vars st) of
        (err, vs) \<Rightarrow> (Return err, st\<lparr>vars := vs, trace := trace st @ [EvAction c fixed rest]\<rparr>))"

text \<open>
  \<^verbatim>\<open>callAction\<close>.  \<^verbatim>\<open>variadicCount := len(args) - numFixed\<close> is a signed \<^verbatim>\<open>int\<close>, and
  \<^verbatim>\<open>reflect.MakeSlice\<close> panics on a negative length.
\<close>

definition callAction :: "golib \<Rightarrow> cref \<Rightarrow> string list \<Rightarrow> state \<Rightarrow> error option outcome \<times> state" where
  "callAction L c argv st =
     (case action (cmds st c) of
        None \<Rightarrow> (Panicked ''reflect: call of reflect.Value.Type on zero Value'', st)
      | Some h \<Rightarrow>
          let decl = args (cmds st c); numFixed = length (fixedParams h)
          in case bindFixed L decl (fixedParams h) 0 argv [] of
               Inl err \<Rightarrow> (Return (Some err), st)
             | Inr callArgs \<Rightarrow>
                 (case variadicElem h of
                    None \<Rightarrow> invoke h c callArgs [] st
                  | Some elemType \<Rightarrow>
                      let variadicCount = int (length argv) - int numFixed
                      in if variadicCount < 0
                         then (Panicked ''reflect.MakeSlice: negative len'', st)
                         else case bindVariadic L elemType (drop numFixed argv) [] of
                                Inl err \<Rightarrow> (Return (Some err), st)
                              | Inr variadicSlice \<Rightarrow> invoke h c callArgs variadicSlice st))"

section \<open>The lifecycle orchestrator\<close>

text \<open>A call of a hook: the hook runs on the caller's variables and the call is recorded.\<close>

definition runHook :: "hook \<Rightarrow> cref \<Rightarrow> event \<Rightarrow> state \<Rightarrow> error option \<times> state" where
  "runHook h c ev st =
     (case h c (vars st) of (err, vs) \<Rightarrow> (err, st\<lparr>vars := vs, trace := trace st @ [ev]\<rparr>))"

text \<open>The loop over \<^verbatim>\<open>ancestors\<close> of \<^verbatim>\<open>executeAction\<close>: it returns at the first error.\<close>

fun runPersistentPre :: "cref \<Rightarrow> cref list \<Rightarrow> state \<Rightarrow> error option \<times> state" where
  "runPersistentPre c [] st = (None, st)"
| "runPersistentPre c (cmd # rest) st =
     (case persistentPreRun (cmds st cmd) of
        None \<Rightarrow> runPersistentPre c rest st
      | Some h \<Rightarrow>
          (case runHook h c (EvPersistentPreRun cmd) st of
             (Some err, st') \<Rightarrow> (Some err, st')
           | (None, st') \<Rightarrow> runPersistentPre c rest st'))"

text \<open>The loop of \<^verbatim>\<open>runPostHooks\<close> from the command to the root; the errors are dropped.\<close>

partial_function (option) persistentPostLoop :: "cref \<Rightarrow> cref option \<Rightarrow> state \<Rightarrow> state option" where
  "persistentPostLoop c current st =
     (case current of
        None \<Rightarrow> Some st
      | Some cur \<Rightarrow>
          persistentPostLoop c (parent (cmds st cur))
            (case persistentPostRun (cmds st cur) of
               None \<Rightarrow> st
             | Some h \<Rightarrow> snd (runHook h c (EvPersistentPostRun cur) st)))"

definition runPostHooks :: "cref \<Rightarrow> state \<Rightarrow> state option" where
  "runPostHooks c st =
     persistentPostLoop c (Some c)
       (case postRun (cmds st c) of
          None \<Rightarrow> st
        | Some h \<Rightarrow> snd (runHook h c (EvPostRun c) st))"

text \<open>
  \<^verbatim>\<open>executeAction\<close>.  The result is \<open>None\<close> when a walk along the parent pointers does not
  end.  A panic of \<^verbatim>\<open>callAction\<close> leaves the function at once: the post hooks do not run.
\<close>

definition executeAction ::
  "golib \<Rightarrow> cref \<Rightarrow> string list \<Rightarrow> state \<Rightarrow> (error option outcome \<times> state) option"
where
  "executeAction L c argv st =
     (case ancestorsLoop (cmds st) (Some c) [] of
        None \<Rightarrow> None
      | Some ancestors \<Rightarrow>
          (case runPersistentPre c ancestors st of
             (Some err, st1) \<Rightarrow> map_option (\<lambda>st'. (Return (Some err), st')) (runPostHooks c st1)
           | (None, st1) \<Rightarrow>
               (case (case preRun (cmds st1 c) of
                        None \<Rightarrow> (None, st1)
                      | Some h \<Rightarrow> runHook h c (EvPreRun c) st1) of
                  (Some err, st2) \<Rightarrow> map_option (\<lambda>st'. (Return (Some err), st')) (runPostHooks c st2)
                | (None, st2) \<Rightarrow>
                    (case (if action (cmds st2 c) \<noteq> None then callAction L c argv st2
                           else (Return None, st2)) of
                       (Panicked msg, st3) \<Rightarrow> Some (Panicked msg, st3)
                     | (Return actionErr, st3) \<Rightarrow>
                         map_option (\<lambda>st'. (Return actionErr, st')) (runPostHooks c st3)))))"

section \<open>The router\<close>

text \<open>
  The first loop of \<^verbatim>\<open>execute\<close>: tokens that begin with \<^verbatim>\<open>-\<close> are passed over; the first
  other token is a subcommand (\<open>Found\<close>, with its index), or an unknown command when the
  command has subcommands, or ends the search.
\<close>

datatype scan = Found nat cref | NotFound string | NoSubcommand

fun findSubcommand :: "(string \<times> cref) list \<Rightarrow> string list \<Rightarrow> nat \<Rightarrow> scan" where
  "findSubcommand subs [] i = NoSubcommand"
| "findSubcommand subs (arg # rest) i =
     (if HasPrefix arg ''-'' then findSubcommand subs rest (Suc i)
      else case map_of subs arg of
             Some cmd \<Rightarrow> Found i cmd
           | None \<Rightarrow> if subs \<noteq> [] then NotFound arg else NoSubcommand)"

lemma findSubcommand_Found: "findSubcommand subs argv i = Found j cmd \<Longrightarrow> argv \<noteq> []"
  by (cases argv) auto

text \<open>The command the help is for: the first token that names a subcommand, else \<open>c\<close>.\<close>

definition helpTarget :: "state \<Rightarrow> cref \<Rightarrow> string list \<Rightarrow> cref" where
  "helpTarget st c argv =
     (case List.find (\<lambda>a. \<not> HasPrefix a ''-'' \<and> map_of (subcommands (cmds st c)) a \<noteq> None) argv of
        None \<Rightarrow> c
      | Some a \<Rightarrow> (case map_of (subcommands (cmds st c)) a of Some cmd \<Rightarrow> cmd | None \<Rightarrow> c))"

text \<open>
  The check of the required flags: the first flag that is required and not set is the
  error; \<^verbatim>\<open>flag.names[0]\<close> panics on a flag without names.
\<close>

fun checkRequired :: "state \<Rightarrow> fref list \<Rightarrow> error option outcome" where
  "checkRequired st [] = Return None"
| "checkRequired st (flag # rest) =
     (if required (flagObjs st flag) \<and> \<not> wasSet (flagObjs st flag) then
        (case names (flagObjs st flag) of
           [] \<Rightarrow> Panicked ''index out of range''
         | n # _ \<Rightarrow> Return (Some (RequiredFlagNotSet n)))
      else checkRequired st rest)"

text \<open>
  \<^verbatim>\<open>execute\<close>.  The recursion into the subcommand is on a shorter list of tokens.
\<close>

function execute ::
  "golib \<Rightarrow> cref \<Rightarrow> string list \<Rightarrow> state \<Rightarrow> (error option outcome \<times> state) option"
where
  "execute L c argv st =
     (if helpEnabled (cmds st c) \<and>
         (\<exists>arg \<in> set argv. arg = ''--'' @ helpFlag (cmds st c) \<or> arg = ''-'' @ helpShort (cmds st c))
      then map_option (\<lambda>st'. (Return None, st')) (showHelp (helpTarget st c argv) st)
      else case findSubcommand (subcommands (cmds st c)) argv 0 of
        NotFound arg \<Rightarrow> Some (Return (Some (CommandNotFoundError arg c)), st)
      | Found subcommandIndex subcmd \<Rightarrow>
          let beforeSubcmd = take subcommandIndex argv;
              afterSubcmd = drop (Suc subcommandIndex) argv
          in if beforeSubcmd \<noteq> [] then
               (case getAllFlags st c of
                  None \<Rightarrow> None
                | Some allFlags \<Rightarrow>
                    (case Parse L allFlags beforeSubcmd st of
                       (Inl err, st') \<Rightarrow> Some (Return (Some (FlagError [] err)), st')
                     | (Inr _, st') \<Rightarrow> execute L subcmd afterSubcmd st'))
             else execute L subcmd afterSubcmd st
      | NoSubcommand \<Rightarrow>
          (case getAllFlags st c of
             None \<Rightarrow> None
           | Some allFlags \<Rightarrow>
               (case Parse L allFlags argv st of
                  (Inl err, st') \<Rightarrow> Some (Return (Some (FlagError [] err)), st')
                | (Inr remaining, st') \<Rightarrow>
                    (case checkRequired st' allFlags of
                       Panicked msg \<Rightarrow> Some (Panicked msg, st')
                     | Return (Some err) \<Rightarrow> Some (Return (Some err), st')
                     | Return None \<Rightarrow>
                         let expectedArgs = length (args (cmds st' c));
                             isVariadic = (case action (cmds st' c) of
                                             None \<Rightarrow> False
                                           | Some h \<Rightarrow> variadicElem h \<noteq> None)
                         in if \<not> isVariadic \<and> length remaining > expectedArgs
                            then Some (Return (Some (TooManyArguments expectedArgs (length remaining))), st')
                            else executeAction L c remaining st'))))"
  by pat_completeness auto
termination
  by (relation "measure (\<lambda>(L, c, argv, st). length argv)")
     (auto dest!: findSubcommand_Found)

section \<open>Notions of the specification\<close>

text \<open>
  The number a token denotes in base 10, written from the words of the specification and
  not from the code: a non-empty string of decimal digits, and the same with an optional
  sign.
\<close>

definition decimalNat :: "string \<Rightarrow> nat option" where
  "decimalNat s =
     (if s \<noteq> [] \<and> list_all isDigit s then Some (foldl (\<lambda>n c. 10 * n + digitVal c) 0 s) else None)"

definition decimalInt :: "string \<Rightarrow> int option" where
  "decimalInt s =
     (case s of
        [] \<Rightarrow> None
      | c # cs \<Rightarrow>
          if c = CHR ''-'' then map_option (\<lambda>n. - int n) (decimalNat cs)
          else if c = CHR ''+'' then map_option int (decimalNat cs)
          else map_option int (decimalNat s))"

text \<open>A value fits a signed, respectively unsigned, width of \<open>b\<close> bits.\<close>

definition fitsInt :: "nat \<Rightarrow> int \<Rightarrow> bool" where
  "fitsInt b v = (- (2 ^ (b - 1)) \<le> v \<and> v < 2 ^ (b - 1))"

definition fitsUint :: "nat \<Rightarrow> nat \<Rightarrow> bool" where
  "fitsUint b n = (n < 2 ^ b)"

text \<open>A token without its leading sign, if it has one.\<close>

definition stripSign :: "string \<Rightarrow> string" where
  "stripSign tok = (if tok \<noteq> [] \<and> (hd tok = CHR ''-'' \<or> hd tok = CHR ''+'') then tl tok else tok)"

text \<open>
  The parent pointers from \<open>c\<close> reach a root: \<open>parentChain cs c xs\<close> holds when \<open>xs\<close> is the
  list of commands from the root down to \<open>c\<close>.
\<close>

inductive parentChain :: "(cref \<Rightarrow> Command) \<Rightarrow> cref \<Rightarrow> cref list \<Rightarrow> bool" for cs where
  root: "parent (cs c) = None \<Longrightarrow> parentChain cs c [c]"
| child: "parent (cs c) = Some p \<Longrightarrow> parentChain cs p xs \<Longrightarrow> parentChain cs c (xs @ [c])"






text \<open>The commands of the chain that have a \<^verbatim>\<open>PersistentPreRun\<close> hook, root first.\<close>

definition preOwners :: "state \<Rightarrow> cref list \<Rightarrow> cref list" where
  "preOwners st anc = filter (\<lambda>cmd. persistentPreRun (cmds st cmd) \<noteq> None) anc"





section \<open>Example configurations\<close>

text \<open>
  \<open>newFlag\<close> is the \<^verbatim>\<open>Flag\<close> object that \<^verbatim>\<open>Add\<close> allocates when it is given no default and no
  usage text; \<open>initState ty\<close> is a program before any configuration, with variables of
  the types \<open>ty\<close> holding their zero values.
\<close>

definition newFlag :: "string list \<Rightarrow> gotype \<Rightarrow> addr \<Rightarrow> Flag" where
  "newFlag ns t a =
     \<lparr>names = ns, flagType = t, defValue = INil, usage = [], valuePtr = a,
      required = False, hidden = False, wasSet = False\<rparr>"

definition initState :: "(addr \<Rightarrow> gotype) \<Rightarrow> state" where
  "initState ty =
     \<lparr>vars = (\<lambda>a. zeroValue (ty a)), varType = ty, flagObjs = (\<lambda>_. newFlag [] TString 0),
      nextFlag = 0, cmds = (\<lambda>_. Cmd []), trace = []\<rparr>"

text \<open>
  The overflow scenario: \<^verbatim>\<open>var level int8 = 5\<close> at address 0, bound by the flag object 0
  with the names \<^verbatim>\<open>level\<close> and \<^verbatim>\<open>l\<close>.
\<close>

definition int8Example :: state where
  "int8Example =
     (initState (\<lambda>_. TInt8))
       \<lparr>vars := (\<lambda>_. VInt 5),
        flagObjs := (\<lambda>_. newFlag [] TString 0)(0 := newFlag [''level'', ''l''] TInt8 0),
        nextFlag := 1\<rparr>"

text \<open>
  A three-level tree \<^verbatim>\<open>app\<close> (command 0), \<^verbatim>\<open>db\<close> (1), \<^verbatim>\<open>migrate\<close> (2).  The root declares
  \<^verbatim>\<open>verbose\<close> (flag 0, variable 0) and \<^verbatim>\<open>port\<close> (flag 1, variable 1); \<^verbatim>\<open>db\<close> declares its own
  \<^verbatim>\<open>port\<close> (flag 2, variable 2); \<^verbatim>\<open>migrate\<close> declares \<^verbatim>\<open>trace\<close> (flag 3, variable 3).
\<close>

definition treeTypes :: "addr \<Rightarrow> gotype" where
  "treeTypes a = (if a = 1 \<or> a = 2 then TInt else TBool)"

definition treeExample :: state where
  "treeExample =
     (initState treeTypes)
       \<lparr>flagObjs := (\<lambda>_. newFlag [] TString 0)
          (0 := newFlag [''verbose'', ''v''] TBool 0,
           1 := newFlag [''port'', ''p''] TInt 1,
           2 := newFlag [''port'', ''p''] TInt 2,
           3 := newFlag [''trace''] TBool 3),
        nextFlag := 4,
        cmds := (\<lambda>_. Cmd [])
          (0 := (Cmd ''app'')\<lparr>flags := [0, 1], subcommands := [(''db'', 1)]\<rparr>,
           1 := (Cmd ''db'')\<lparr>flags := [2], subcommands := [(''migrate'', 2)], parent := Some 0\<rparr>,
           2 := (Cmd ''migrate'')\<lparr>flags := [3], parent := Some 1\<rparr>)\<rparr>"

text \<open>The same state after the token \<^verbatim>\<open>--port=9000\<close> has been parsed at the root.\<close>

definition portSetExample :: state where
  "portSetExample = markSet 1 (treeExample\<lparr>vars := (vars treeExample)(1 := VInt 9000)\<rparr>)"

text \<open>
  A root \<^verbatim>\<open>app\<close> (command 0) that declares the boolean \<^verbatim>\<open>verbose\<close> with the alias \<^verbatim>\<open>v\<close>
  (flag 0, variable 0) and a subcommand \<^verbatim>\<open>sub\<close> (1) that declares the boolean \<^verbatim>\<open>version\<close>
  with the same alias \<^verbatim>\<open>v\<close> (flag 1, variable 1).
\<close>

definition aliasExample :: state where
  "aliasExample =
     (initState (\<lambda>_. TBool))
       \<lparr>flagObjs := (\<lambda>_. newFlag [] TString 0)
          (0 := newFlag [''verbose'', ''v''] TBool 0,
           1 := newFlag [''version'', ''v''] TBool 1),
        nextFlag := 2,
        cmds := (\<lambda>_. Cmd [])
          (0 := (Cmd ''app'')\<lparr>flags := [0], subcommands := [(''sub'', 1)]\<rparr>,
           1 := (Cmd ''sub'')\<lparr>flags := [1], parent := Some 0\<rparr>)\<rparr>"


text \<open>
  A root command whose handler is \<^verbatim>\<open>func(ctx, cmd, first string, rest ...string) error\<close>
  and which declares one optional argument \<^verbatim>\<open>first\<close>; the handler stores what it was given
  in the variables 0 (a string) and 1 (a string list).
\<close>

definition variadicHandler :: handler where
  "variadicHandler =
     \<lparr>fixedParams = [TString], variadicElem = Some TString,
      body = (\<lambda>c fixed rest vs. (None, vs(0 := hd fixed, 1 := VStrings (map (\<lambda>v. case v of VString s \<Rightarrow> s | _ \<Rightarrow> []) rest))))\<rparr>"

definition variadicExample :: state where
  "variadicExample =
     (initState (\<lambda>a. if a = 0 then TString else TSlice TString))
       \<lparr>cmds := (\<lambda>_. Cmd [])
          (0 := (Cmd ''test'')
             \<lparr>args := [\<lparr>Name = ''first'', Description = ''First arg'', Required = False\<rparr>],
              action := Some variadicHandler\<rparr>)\<rparr>"






section \<open>The integer converters against base-10 notation\<close>

lemma digitVal_le: "isDigit c \<Longrightarrow> digitVal c \<le> 9"
  by (auto simp: isDigit_def digitVal_def)

lemma foldl_digits_ge: "n \<le> foldl (\<lambda>n c. 10 * n + digitVal c) n cs"
proof (induction cs arbitrary: n)
  case Nil
  show ?case by simp
next
  case (Cons c cs)
  have "n \<le> 10 * n + digitVal c" by simp
  also have "\<dots> \<le> foldl (\<lambda>n c. 10 * n + digitVal c) (10 * n + digitVal c) cs" by (rule Cons.IH)
  finally show ?case by simp
qed

text \<open>
  The digit loop returns a number exactly when every character is a digit and the number
  read stays within \<open>maxVal\<close>; the checks of the loop catch every overflow of the 64-bit
  accumulator.
\<close>

lemma parseUintLoop_Inr:
  assumes "maxVal \<le> maxUint64"
  shows "parseUintLoop maxVal cs n = Inr m \<longleftrightarrow>
         list_all isDigit cs \<and> m = foldl (\<lambda>n c. 10 * n + digitVal c) n cs \<and> (cs \<noteq> [] \<longrightarrow> m \<le> maxVal)"
proof (induction cs arbitrary: n)
  case Nil
  show ?case by auto
next
  case (Cons c cs)
  let ?step = "\<lambda>n c. 10 * n + digitVal c"
  show ?case
  proof (cases "isDigit c")
    case False
    then show ?thesis by simp
  next
    case True
    note d = digitVal_le [OF True]
    show ?thesis
    proof (cases "n \<ge> maxUint64 div 10 + 1")
      case big: True
      then have "10 * n + digitVal c > maxUint64" by (simp add: maxUint64_def)
      moreover have "?step n c \<le> foldl ?step (?step n c) cs" by (rule foldl_digits_ge)
      ultimately have "foldl ?step (?step n c) cs > maxVal" using assms by linarith
      with big True show ?thesis by auto
    next
      case small: False
      then have n10: "n * 10 \<le> maxUint64" by (simp add: maxUint64_def)
      show ?thesis
      proof (cases "n * 10 + digitVal c < 2 ^ 64")
        case nowrap: True
        then have md: "(n * 10 + digitVal c) mod 2 ^ 64 = n * 10 + digitVal c" by simp
        show ?thesis
        proof (cases "n * 10 + digitVal c > maxVal")
          case over: True
          have "?step n c \<le> foldl ?step (?step n c) cs" by (rule foldl_digits_ge)
          with over have "foldl ?step (?step n c) cs > maxVal" by (simp add: mult.commute)
          with over small True md show ?thesis by (auto simp: Let_def)
        next
          case fits: False
          have "parseUintLoop maxVal (c # cs) n = parseUintLoop maxVal cs (n * 10 + digitVal c)"
            using True small fits md by (simp add: Let_def)
          moreover have "cs = [] \<Longrightarrow> foldl ?step (?step n c) cs \<le> maxVal"
            using fits by (simp add: mult.commute)
          ultimately show ?thesis using True Cons.IH [of "n * 10 + digitVal c"]
            by (auto simp: mult.commute)
        qed
      next
        case wrap: False
        then have ge: "n * 10 + digitVal c \<ge> 2 ^ 64" by simp
        have lt: "n * 10 + digitVal c < 2 ^ 64 + 2 ^ 64" using n10 d by (simp add: maxUint64_def)
        have "(n * 10 + digitVal c) mod 2 ^ 64 = n * 10 + digitVal c - 2 ^ 64"
          using ge lt by (simp add: mod_if le_mod_geq)
        moreover have "n * 10 + digitVal c - 2 ^ 64 < n * 10" using ge d n10 by (simp add: maxUint64_def)
        moreover have "foldl ?step (?step n c) cs > maxVal"
        proof -
          have "?step n c \<le> foldl ?step (?step n c) cs" by (rule foldl_digits_ge)
          moreover have "?step n c > maxVal" using ge assms by (simp add: maxUint64_def mult.commute)
          ultimately show ?thesis by linarith
        qed
        ultimately show ?thesis using True small by (auto simp: Let_def)
      qed
    qed
  qed
qed

lemma ParseUint_Inr:
  assumes "b \<le> 64"
  shows "ParseUint s b = Inr n \<longleftrightarrow> decimalNat s = Some n \<and> n < 2 ^ b"
proof -
  have "(2::nat) ^ b \<le> 2 ^ 64" using assms by (rule power_increasing) simp
  then have mv: "(2::nat) ^ b - 1 \<le> maxUint64" by (simp add: maxUint64_def)
  have pos: "(0::nat) < 2 ^ b" by simp
  show ?thesis
  proof (cases "s = []")
    case True
    then show ?thesis by (simp add: ParseUint_def decimalNat_def)
  next
    case False
    have "ParseUint s b = Inr n \<longleftrightarrow> parseUintLoop (2 ^ b - 1) s 0 = Inr n"
      using False by (auto simp: ParseUint_def split: sum.splits)
    also have "\<dots> \<longleftrightarrow> list_all isDigit s \<and> n = foldl (\<lambda>n c. 10 * n + digitVal c) 0 s \<and> n \<le> 2 ^ b - 1"
      using False parseUintLoop_Inr [OF mv, of s 0 n] by simp
    also have "\<dots> \<longleftrightarrow> decimalNat s = Some n \<and> n < 2 ^ b"
    proof -
      have "n \<le> 2 ^ b - 1 \<longleftrightarrow> n < 2 ^ b" using pos by linarith
      then show ?thesis using False by (auto simp: decimalNat_def)
    qed
    finally show ?thesis .
  qed
qed

lemma ParseUint_Inl: "ParseUint s b = Inl e \<Longrightarrow> \<exists>k. e = NumError ''ParseUint'' s k"
  by (auto simp: ParseUint_def split: if_splits sum.splits)

lemma ParseInt_Inr:
  assumes "0 < b" "b \<le> 64"
  shows "ParseInt s b = Inr v \<longleftrightarrow>
         decimalInt s = Some v \<and> - (2 ^ (b - 1)) \<le> v \<and> v < 2 ^ (b - 1)"
proof (cases s)
  case Nil
  then show ?thesis by (simp add: ParseInt_def decimalInt_def)
next
  case (Cons c cs)
  define neg where "neg = (c = CHR ''-'')"
  define t where "t = (if c = CHR ''+'' \<or> c = CHR ''-'' then cs else s)"
  have half: "(2::nat) ^ b = 2 * 2 ^ (b - 1)" using assms(1) by (cases b) auto
  have dI: "decimalInt s = map_option (\<lambda>n. if neg then - int n else int n) (decimalNat t)"
    using Cons by (auto simp: decimalInt_def neg_def t_def)
  have unf: "ParseInt s b =
      (case ParseUint t b of
         Inl (NumError f n ErrSyntax) \<Rightarrow> Inl (NumError ''ParseInt'' s ErrSyntax)
       | Inl _ \<Rightarrow> Inl (NumError ''ParseInt'' s ErrRange)
       | Inr un \<Rightarrow>
           if \<not> neg \<and> un \<ge> 2 ^ (b - 1) then Inl (NumError ''ParseInt'' s ErrRange)
           else if neg \<and> un > 2 ^ (b - 1) then Inl (NumError ''ParseInt'' s ErrRange)
           else Inr (if neg then - int un else int un))"
    unfolding ParseInt_def Cons t_def neg_def Let_def by simp
  show ?thesis
  proof (cases "ParseUint t b")
    case (Inl e)
    then obtain k where e: "e = NumError ''ParseUint'' t k" by (auto dest: ParseUint_Inl)
    have "\<not> (\<exists>n. decimalNat t = Some n \<and> n < 2 ^ b)"
      using ParseUint_Inr [OF assms(2), of t] Inl by auto
    then have "\<not> (\<exists>n. decimalNat t = Some n \<and> int n < 2 ^ b)"
      by (metis of_nat_less_iff of_nat_numeral of_nat_power)
    then have nr: "\<And>n. decimalNat t = Some n \<Longrightarrow> int n \<ge> 2 * 2 ^ (b - 1)"
      using half by (metis (mono_tags, opaque_lifting) not_le of_nat_mult of_nat_numeral of_nat_power)
    have "\<forall>v. ParseInt s b \<noteq> Inr v"
      unfolding unf Inl e by (cases k) auto
    moreover have "\<not> (decimalInt s = Some v \<and> - (2 ^ (b - 1)) \<le> v \<and> v < 2 ^ (b - 1))"
      using nr dI by (auto split: if_splits)
    ultimately show ?thesis by simp
  next
    case (Inr un)
    then have dn: "decimalNat t = Some un" and lt: "un < 2 ^ b"
      using ParseUint_Inr [OF assms(2), of t un] by auto
    define K where "K = (2::nat) ^ (b - 1)"
    have iK: "(2::int) ^ (b - 1) = int K" by (simp add: K_def)
    have "ParseInt s b =
          (if \<not> neg \<and> un \<ge> K then Inl (NumError ''ParseInt'' s ErrRange)
           else if neg \<and> un > K then Inl (NumError ''ParseInt'' s ErrRange)
           else Inr (if neg then - int un else int un))"
      unfolding unf Inr K_def by simp
    moreover have "0 < K" by (simp add: K_def)
    ultimately show ?thesis unfolding iK using dI dn
      by (cases neg; cases "un \<ge> K"; cases "un > K"; simp; linarith?)
  qed
qed

text \<open>What \<^verbatim>\<open>setValue\<close> does on the integer kinds, in terms of the two converters.\<close>

lemma setValue_int:
  assumes "kindOf t \<in> set intKinds" "t \<noteq> TDuration"
  shows "setValue L t tok cur =
         (case ParseInt tok (Bits t) of Inl err \<Rightarrow> (Some err, cur) | Inr v \<Rightarrow> (None, VInt v))"
  using assms by (cases t) (simp_all add: setValue_def intKinds_def)

lemma setValue_uint:
  assumes "kindOf t \<in> set uintKinds"
  shows "setValue L t tok cur =
         (case ParseUint tok (Bits t) of Inl err \<Rightarrow> (Some err, cur) | Inr v \<Rightarrow> (None, VUint v))"
  using assms by (cases t) (simp_all add: setValue_def intKinds_def uintKinds_def)

lemma Bits_int: "kindOf t \<in> set intKinds \<Longrightarrow> 0 < Bits t \<and> Bits t \<le> 64"
  by (cases t) (simp_all add: intKinds_def)

lemma Bits_uint: "kindOf t \<in> set uintKinds \<Longrightarrow> Bits t \<le> 64"
  by (cases t) (simp_all add: uintKinds_def)

section \<open>The walk along the parent pointers\<close>

text \<open>The walk ends exactly when the parent pointers reach a root, and returns the chain.\<close>

lemma chain_loop: "parentChain cs c xs \<Longrightarrow> ancestorsLoop cs (Some c) acc = Some (xs @ acc)"
proof (induction arbitrary: acc rule: parentChain.induct)
  case (root c)
  then show ?case by (simp add: ancestorsLoop.simps)
next
  case (child c p xs)
  then show ?case by (simp add: ancestorsLoop.simps)
qed

lemma loop_chain:
  assumes "ancestorsLoop cs0 cur0 acc0 = Some r0"
  shows "case cur0 of None \<Rightarrow> r0 = acc0 | Some c \<Rightarrow> (\<exists>xs. parentChain cs0 c xs \<and> r0 = xs @ acc0)"
proof (rule ancestorsLoop.raw_induct [where P = "\<lambda>cs cur acc r.
         case cur of None \<Rightarrow> r = acc | Some c \<Rightarrow> (\<exists>xs. parentChain cs c xs \<and> r = xs @ acc)",
         OF _ assms], goal_cases)
  case (1 f cs cur acc r)
  note ih = "1"(1) and eq = "1"(2)
  show ?case
  proof (cases cur)
    case None
    with eq show ?thesis by simp
  next
    case cur: (Some c)
    with eq have rec: "f cs (parent (cs c)) (c # acc) = Some r" by simp
    have step: "case parent (cs c) of None \<Rightarrow> r = c # acc
                | Some p \<Rightarrow> \<exists>xs. parentChain cs p xs \<and> r = xs @ c # acc"
      using rec by (rule ih)
    show ?thesis
    proof (cases "parent (cs c)")
      case None
      with step have "r = [c] @ acc" by simp
      moreover have "parentChain cs c [c]" using None by (rule parentChain.root)
      ultimately show ?thesis using cur by auto
    next
      case (Some p)
      with step obtain xs where xs: "parentChain cs p xs" "r = xs @ c # acc" by auto
      have "parentChain cs c (xs @ [c])" using Some xs(1) by (rule parentChain.child)
      moreover have "r = (xs @ [c]) @ acc" using xs(2) by simp
      ultimately show ?thesis using cur by auto
    qed
  qed
qed

lemma ancestors_chain:
  "ancestorsLoop cs (Some c) [] = Some anc \<longleftrightarrow> parentChain cs c anc"
proof
  assume "ancestorsLoop cs (Some c) [] = Some anc"
  from loop_chain [OF this] show "parentChain cs c anc" by simp
next
  assume "parentChain cs c anc"
  from chain_loop [OF this, of "[]"] show "ancestorsLoop cs (Some c) [] = Some anc" by simp
qed





section \<open>Durations written with digits only\<close>

lemma leadingInt_digits:
  "list_all isDigit s \<Longrightarrow> leadingInt s x = None \<or> (\<exists>v. leadingInt s x = Some (v, []))"
  by (induction s x rule: leadingInt.induct) (auto simp: Let_def)

lemma durationGroup_digits:
  assumes "list_all isDigit s" "s \<noteq> []"
  shows "durationGroup L orig s = Inl (InvalidDuration orig) \<or> durationGroup L orig s = Inl (MissingUnit orig)"
proof -
  from assms have hd: "isDigit (hd s)" by (cases s) auto
  from leadingInt_digits [OF assms(1), of 0] show ?thesis
  proof
    assume "leadingInt s 0 = None"
    with hd show ?thesis by (simp add: durationGroup_def)
  next
    assume "\<exists>v. leadingInt s 0 = Some (v, [])"
    then obtain v where "leadingInt s 0 = Some (v, [])" ..
    with hd assms(2) show ?thesis by (simp add: durationGroup_def fractionPart_def)
  qed
qed

lemma ParseDuration_digits:
  assumes "list_all isDigit tok" "tok \<noteq> ''0''"
  shows "\<exists>e. ParseDuration L tok = Inl e"
proof (cases "tok = []")
  case True
  then show ?thesis by (simp add: ParseDuration_def)
next
  case False
  from assms(1) False have nosign: "hd tok \<noteq> CHR ''-''" "hd tok \<noteq> CHR ''+''"
    by (cases tok; auto simp: isDigit_def)+
  from durationGroup_digits [OF assms(1) False, of L tok]
  have "\<exists>e. durationLoop L tok tok 0 = Inl e" using False by auto
  then show ?thesis using nosign False assms(2) by (auto simp: ParseDuration_def)
qed

text \<open>A duration that converts has a unit, unless it is zero.\<close>

lemma leadingInt_set: "leadingInt s x = Some (v, r) \<Longrightarrow> set r \<subseteq> set s"
  by (induction s x rule: leadingInt.induct) (auto simp: Let_def split: if_splits)

lemma leadingFraction_set: "leadingFraction s x sc ov = (f, sc', r) \<Longrightarrow> set r \<subseteq> set s"
  by (induction s x sc ov rule: leadingFraction.induct) (auto simp: Let_def split: if_splits)

lemma fractionPart_set: "fractionPart s1 = (f, scale, s2, post) \<Longrightarrow> set s2 \<subseteq> set s1"
proof -
  assume a: "fractionPart s1 = (f, scale, s2, post)"
  show ?thesis
  proof (cases "s1 \<noteq> [] \<and> hd s1 = CHR ''.''")
    case True
    with a obtain f' sc' where "leadingFraction (tl s1) 0 1 False = (f', sc', s2)"
      by (auto simp: fractionPart_def split: prod.splits)
    then have "set s2 \<subseteq> set (tl s1)" by (rule leadingFraction_set)
    moreover have "set (tl s1) \<subseteq> set s1" using True by (cases s1) auto
    ultimately show ?thesis by blast
  next
    case False
    with a show ?thesis by (auto simp: fractionPart_def)
  qed
qed

lemma durationGroup_unit:
  assumes "durationGroup L orig s = Inr (v, r)"
  shows "\<exists>c \<in> set s. unitChar c"
proof -
  from assms obtain v0 s1 where li: "leadingInt s 0 = Some (v0, s1)"
    by (auto simp: durationGroup_def split: if_splits option.splits)
  obtain f scale s2 post where fr: "fractionPart s1 = (f, scale, s2, post)"
    by (cases "fractionPart s1") auto
  from assms li fr have u: "takeWhile unitChar s2 \<noteq> []"
    by (auto simp: durationGroup_def Let_def split: if_splits option.splits)
  then have "s2 \<noteq> []" "unitChar (hd s2)" by (cases s2; auto split: if_splits)+
  then have "hd s2 \<in> set s2" by simp
  moreover have "set s2 \<subseteq> set s"
    using leadingInt_set [OF li] fractionPart_set [OF fr] by blast
  ultimately show ?thesis using \<open>unitChar (hd s2)\<close> by blast
qed

lemma ParseDuration_ok_unit:
  assumes "ParseDuration L tok = Inr d"
  shows "stripSign tok = ''0'' \<or> (\<exists>c \<in> set (stripSign tok). unitChar c)"
proof (cases "stripSign tok = ''0''")
  case True
  then show ?thesis by simp
next
  case False
  let ?s = "stripSign tok"
  have s: "?s = (if tok \<noteq> [] \<and> (hd tok = CHR ''-'' \<or> hd tok = CHR ''+'') then tl tok else tok)"
    by (simp add: stripSign_def)
  from assms False have ne: "?s \<noteq> []" and "\<exists>r. durationLoop L tok ?s 0 = Inr r"
    unfolding ParseDuration_def Let_def s [symmetric]
    by (auto split: if_splits sum.splits)
  then obtain r where "durationLoop L tok ?s 0 = Inr r" by blast
  then obtain v rest where "durationGroup L tok ?s = Inr (v, rest)"
    using ne by (subst (asm) durationLoop.simps) (auto split: sum.splits)
  from durationGroup_unit [OF this] show ?thesis by blast
qed

section \<open>Single flag tokens\<close>

lemma KBool_type: "kindOf t = KBool \<Longrightarrow> t = TBool"
  by (cases t) simp_all



text \<open>One flag token with a value, once split and looked up: convert, write, mark.\<close>

lemma Parse_token_with_value:
  assumes "HasPrefix arg ''-''" "splitFlag arg = (n, v, True)" "GetFlag st fs n = Some p"
  shows "Parse L fs [arg] st =
         (case setFlagValue L p v st of
            (Some err, st') \<Rightarrow> (Inl (InvalidValue v n err), st')
          | (None, st') \<Rightarrow> (Inr [], markSet p st'))"
  using assms by (auto simp: Parse_def split: prod.splits option.splits)

lemma Parse_bare_bool:
  assumes "HasPrefix arg ''-''" "splitFlag arg = (n, [], False)" "GetFlag st fs n = Some p"
    "kindOf (flagType (flagObjs st p)) = KBool"
  shows "Parse L fs [arg] st =
         (Inr [], markSet p (st\<lparr>vars := (vars st)(valuePtr (flagObjs st p) := VBool True)\<rparr>))"
  using assms by (simp add: Parse_def)

lemma setFlagValue_true:
  assumes "kindOf (flagType (flagObjs st p)) = KBool"
  shows "setFlagValue L p ''true'' st =
         (None, st\<lparr>vars := (vars st)(valuePtr (flagObjs st p) := VBool True)\<rparr>)"
  using assms by (simp add: setFlagValue_def setValue_def ParseBool_def)

text \<open>Parsing a vector is parsing a prefix and then the rest from the state the prefix left.\<close>

lemma ParseLoop_append:
  "ParseLoop L fs (a1 @ a2) rem st =
     (case ParseLoop L fs a1 rem st of
        (Inl e, st') \<Rightarrow> (Inl e, st')
      | (Inr rem', st') \<Rightarrow> ParseLoop L fs a2 rem' st')"
proof (induction a1 arbitrary: rem st)
  case Nil
  show ?case by simp
next
  case (Cons arg rest)
  show ?case by (simp add: Cons.IH split: prod.splits option.splits)
qed

section \<open>The effective flag set\<close>










lemma find_first:
  "\<forall>p \<in> set pre. \<not> P p \<Longrightarrow> P q \<Longrightarrow> List.find P (pre @ q # post) = Some q"
  by (induction pre) auto


section \<open>Adding a flag to a command\<close>








section \<open>The hooks along the chain\<close>

lemma runHook_frame:
  "runHook h c ev st = (r, st') \<Longrightarrow>
     cmds st' = cmds st \<and> flagObjs st' = flagObjs st \<and> trace st' = trace st @ [ev]"
  by (auto simp: runHook_def split: prod.splits)






text \<open>
  The forward loop over the chain: the hooks that ran are an initial part of the hooks of
  the chain; all of them when no hook failed, and at least the failing one otherwise.
\<close>

lemma runPersistentPre_trace:
  "runPersistentPre c xs st = (r, st1) \<Longrightarrow>
     cmds st1 = cmds st \<and>
     (\<exists>ran rest. preOwners st xs = ran @ rest
        \<and> trace st1 = trace st @ map EvPersistentPreRun ran
        \<and> (r = None \<longrightarrow> rest = []) \<and> (r \<noteq> None \<longrightarrow> ran \<noteq> []))"
proof (induction xs arbitrary: st)
  case Nil
  then show ?case by (simp add: preOwners_def)
next
  case (Cons x xs)
  show ?case
  proof (cases "persistentPreRun (cmds st x)")
    case None
    with Cons.prems have "runPersistentPre c xs st = (r, st1)" by simp
    from Cons.IH [OF this] None show ?thesis by (simp add: preOwners_def)
  next
    case (Some h)
    obtain e st' where rh: "runHook h c (EvPersistentPreRun x) st = (e, st')"
      by (cases "runHook h c (EvPersistentPreRun x) st") auto
    from runHook_frame [OF rh] have fr: "cmds st' = cmds st" "trace st' = trace st @ [EvPersistentPreRun x]"
      by simp_all
    show ?thesis
    proof (cases e)
      case (Some err)
      with Cons.prems \<open>persistentPreRun (cmds st x) = Some h\<close> rh
      have "r = Some err" "st1 = st'" by simp_all
      moreover have "preOwners st (x # xs) = [x] @ preOwners st xs"
        using \<open>persistentPreRun (cmds st x) = Some h\<close> by (simp add: preOwners_def)
      ultimately show ?thesis using fr by (intro conjI exI [of _ "[x]"] exI [of _ "preOwners st xs"]) simp_all
    next
      case None
      with Cons.prems \<open>persistentPreRun (cmds st x) = Some h\<close> rh
      have "runPersistentPre c xs st' = (r, st1)" by simp
      from Cons.IH [OF this] obtain ran rest where
        ih: "cmds st1 = cmds st'" "preOwners st' xs = ran @ rest"
          "trace st1 = trace st' @ map EvPersistentPreRun ran"
          "r = None \<longrightarrow> rest = []" "r \<noteq> None \<longrightarrow> ran \<noteq> []"
        by blast
      have po: "preOwners st' xs = preOwners st xs" using fr(1) by (simp add: preOwners_def)
      have "preOwners st (x # xs) = (x # ran) @ rest"
        using \<open>persistentPreRun (cmds st x) = Some h\<close> ih(2) po by (simp add: preOwners_def)
      moreover have "trace st1 = trace st @ map EvPersistentPreRun (x # ran)"
        using ih(3) fr(2) by simp
      ultimately show ?thesis using ih(1,4,5) fr(1)
        by (intro conjI exI [of _ "x # ran"] exI [of _ rest]) simp_all
    qed
  qed
qed

lemma getCommandPath_chain: "parentChain cs c xs \<Longrightarrow> \<exists>s. getCommandPath cs c = Some s"
proof (induction rule: parentChain.induct)
  case (root c)
  then show ?case by (subst getCommandPath.simps) simp
next
  case (child c p xs)
  then obtain s where "getCommandPath cs p = Some s" by blast
  with child.hyps(1) show ?case by (subst getCommandPath.simps) simp
qed


text \<open>
  When the forward loop fails, the chain splits at the failing command: the hooks before
  it all returned nil, its own hook returned the error, and the loop stopped there.
\<close>

lemma runPersistentPre_fails:
  "runPersistentPre c xs st = (Some e, st1) \<Longrightarrow>
     \<exists>pre x post h st0. xs = pre @ x # post
        \<and> runPersistentPre c pre st = (None, st0)
        \<and> persistentPreRun (cmds st x) = Some h
        \<and> runHook h c (EvPersistentPreRun x) st0 = (Some e, st1)"
proof (induction xs arbitrary: st)
  case Nil
  then show ?case by simp
next
  case (Cons y ys)
  show ?case
  proof (cases "persistentPreRun (cmds st y)")
    case None
    with Cons.prems have "runPersistentPre c ys st = (Some e, st1)" by simp
    from Cons.IH [OF this] obtain pre x post h st0 where
      ih: "ys = pre @ x # post" "runPersistentPre c pre st = (None, st0)"
        "persistentPreRun (cmds st x) = Some h"
        "runHook h c (EvPersistentPreRun x) st0 = (Some e, st1)"
      by blast
    have "runPersistentPre c (y # pre) st = (None, st0)" using None ih(2) by simp
    with ih(1,3,4) show ?thesis
      by (intro exI [of _ "y # pre"] exI [of _ x] exI [of _ post] exI [of _ h] exI [of _ st0]) simp
  next
    case (Some hy)
    obtain r st' where rh: "runHook hy c (EvPersistentPreRun y) st = (r, st')"
      by (cases "runHook hy c (EvPersistentPreRun y) st") auto
    show ?thesis
    proof (cases r)
      case (Some err)
      with Cons.prems \<open>persistentPreRun (cmds st y) = Some hy\<close> rh
      have "err = e" "st' = st1" by simp_all
      with rh Some \<open>persistentPreRun (cmds st y) = Some hy\<close> show ?thesis
        by (intro exI [of _ "[]"] exI [of _ y] exI [of _ ys] exI [of _ hy] exI [of _ st]) simp
    next
      case None
      with Cons.prems \<open>persistentPreRun (cmds st y) = Some hy\<close> rh
      have "runPersistentPre c ys st' = (Some e, st1)" by simp
      from Cons.IH [OF this] obtain pre x post h st0 where
        ih: "ys = pre @ x # post" "runPersistentPre c pre st' = (None, st0)"
          "persistentPreRun (cmds st' x) = Some h"
          "runHook h c (EvPersistentPreRun x) st0 = (Some e, st1)"
        by blast
      from runHook_frame [OF rh] have "cmds st' = cmds st" by simp
      with ih(3) have hx: "persistentPreRun (cmds st x) = Some h" by simp
      have "runPersistentPre c (y # pre) st = (None, st0)"
        using \<open>persistentPreRun (cmds st y) = Some hy\<close> rh None ih(2) by simp
      with ih(1,4) hx show ?thesis
        by (intro exI [of _ "y # pre"] exI [of _ x] exI [of _ post] exI [of _ h] exI [of _ st0]) simp
    qed
  qed
qed

lemma runPersistentPre_ok_trace:
  "runPersistentPre c xs st = (None, st1) \<Longrightarrow>
     cmds st1 = cmds st \<and> trace st1 = trace st @ map EvPersistentPreRun (preOwners st xs)"
  using runPersistentPre_trace [of c xs st None st1] by auto





lemma showHelp_chain:
  assumes "ancestorsLoop (cmds st) (Some t) [] = Some anc"
  shows "showHelp t st = Some (st\<lparr>trace := trace st @ [EvHelp t]\<rparr>)"
proof -
  have "parentChain (cmds st) t anc" using assms by (simp add: ancestors_chain)
  then obtain s where "getCommandPath (cmds st) t = Some s"
    using getCommandPath_chain by blast
  then show ?thesis using assms by (simp add: showHelp_def getAllFlags_def)
qed





section \<open>The forward phase of the lifecycle\<close>




section \<open>The claims\<close>

subsection \<open>C1: a failing PersistentPreRun and the unwind phase\<close>



subsection \<open>C2: the effective flag set\<close>



subsection \<open>C3: a second binding of the same name on one node\<close>




subsection \<open>C4: the variadic binder on a short token list\<close>

text \<open>
  C4.  The handler of \<open>variadicExample\<close> has one fixed string parameter, declared optional,
  and a variadic string tail.  With the tokens \<^verbatim>\<open>a b c\<close> the fixed parameter is \<^verbatim>\<open>a\<close> and the
  tail is \<^verbatim>\<open>b c\<close> in order; with the one token \<^verbatim>\<open>a\<close> the tail is empty and nothing fails.  With
  no token at all the fixed position gets its zero value, and then the length computed for
  the variadic slice is -1: \<^verbatim>\<open>callAction\<close>, and \<^verbatim>\<open>execute\<close> with it, panics instead of calling
  the handler with an empty tail.
\<close>

theorem C4_variadic_short_list_panics:
  "\<forall>L. callAction L 0 [] variadicExample =
           (Panicked ''reflect.MakeSlice: negative len'', variadicExample)
      \<and> execute L 0 [] variadicExample =
           Some (Panicked ''reflect.MakeSlice: negative len'', variadicExample)
      \<and> execute L 0 [''a''] variadicExample =
           Some (Return None,
                 variadicExample\<lparr>vars := (vars variadicExample)(0 := VString ''a'', 1 := VStrings []),
                                 trace := [EvAction 0 [VString ''a''] []]\<rparr>)
      \<and> execute L 0 [''a'', ''b'', ''c''] variadicExample =
           Some (Return None,
                 variadicExample\<lparr>vars := (vars variadicExample)(0 := VString ''a'', 1 := VStrings [''b'', ''c'']),
                                 trace := [EvAction 0 [VString ''a''] [VString ''b'', VString ''c'']]\<rparr>)"
proof
  fix L
  have c: "cmds variadicExample 0 = (Cmd ''test'')
             \<lparr>args := [\<lparr>Name = ''first'', Description = ''First arg'', Required = False\<rparr>],
              action := Some variadicHandler\<rparr>"
    by (simp add: variadicExample_def)
  have tr: "trace variadicExample = []" by (simp add: variadicExample_def initState_def)
  have ca0: "callAction L 0 [] variadicExample =
           (Panicked ''reflect.MakeSlice: negative len'', variadicExample)"
    by (simp add: callAction_def c Cmd_def variadicHandler_def Let_def)
  have a: "ancestorsLoop (cmds variadicExample) (Some 0) [] = Some [0]"
    by (simp add: ancestorsLoop.simps c Cmd_def)
  have ga: "getAllFlags variadicExample 0 = Some []"
    using a by (simp add: getAllFlags_def collectFlags_def c Cmd_def)
  have pl: "persistentPostLoop 0 (Some 0) s = Some s" if "cmds s = cmds variadicExample" for s
    using that by (simp add: persistentPostLoop.simps c Cmd_def)
  have rp: "runPostHooks 0 s = Some s" if "cmds s = cmds variadicExample" for s
    using that pl [OF that] by (simp add: runPostHooks_def c Cmd_def)
  have ea0: "executeAction L 0 [] variadicExample =
           Some (Panicked ''reflect.MakeSlice: negative len'', variadicExample)"
    using a ca0 by (simp add: executeAction_def c Cmd_def)
  have e0: "execute L 0 [] variadicExample =
           Some (Panicked ''reflect.MakeSlice: negative len'', variadicExample)"
    using ga ea0 by (simp add: c Cmd_def Parse_def variadicHandler_def)
  have cv: "convertArgument L s TString = Inr (VString s)" for s
    by (simp add: convertArgument_def setValue_def)
  let ?s1 = "variadicExample\<lparr>vars := (vars variadicExample)(0 := VString ''a'', 1 := VStrings []),
                                 trace := [EvAction 0 [VString ''a''] []]\<rparr>"
  have ca1: "callAction L 0 [''a''] variadicExample = (Return None, ?s1)"
    by (simp add: callAction_def c Cmd_def variadicHandler_def Let_def cv invoke_def tr)
  have ea1: "executeAction L 0 [''a''] variadicExample = Some (Return None, ?s1)"
    using a ca1 rp [of ?s1] by (simp add: executeAction_def c Cmd_def)
  have e1: "execute L 0 [''a''] variadicExample = Some (Return None, ?s1)"
    using ga ea1 by (simp add: c Cmd_def Parse_def variadicHandler_def HasPrefix_def)
  let ?s3 = "variadicExample\<lparr>vars := (vars variadicExample)(0 := VString ''a'', 1 := VStrings [''b'', ''c'']),
                                 trace := [EvAction 0 [VString ''a''] [VString ''b'', VString ''c'']]\<rparr>"
  have ca3: "callAction L 0 [''a'', ''b'', ''c''] variadicExample = (Return None, ?s3)"
    by (simp add: callAction_def c Cmd_def variadicHandler_def Let_def cv invoke_def tr)
  have ea3: "executeAction L 0 [''a'', ''b'', ''c''] variadicExample = Some (Return None, ?s3)"
    using a ca3 rp [of ?s3] by (simp add: executeAction_def c Cmd_def)
  have e3: "execute L 0 [''a'', ''b'', ''c''] variadicExample = Some (Return None, ?s3)"
    using ga ea3 by (simp add: c Cmd_def Parse_def variadicHandler_def HasPrefix_def)
  from ca0 e0 e1 e3 show "callAction L 0 [] variadicExample =
           (Panicked ''reflect.MakeSlice: negative len'', variadicExample)
      \<and> execute L 0 [] variadicExample =
           Some (Panicked ''reflect.MakeSlice: negative len'', variadicExample)
      \<and> execute L 0 [''a''] variadicExample =
           Some (Return None,
                 variadicExample\<lparr>vars := (vars variadicExample)(0 := VString ''a'', 1 := VStrings []),
                                 trace := [EvAction 0 [VString ''a''] []]\<rparr>)
      \<and> execute L 0 [''a'', ''b'', ''c''] variadicExample =
           Some (Return None,
                 variadicExample\<lparr>vars := (vars variadicExample)(0 := VString ''a'', 1 := VStrings [''b'', ''c'']),
                                 trace := [EvAction 0 [VString ''a''] [VString ''b'', VString ''c'']]\<rparr>)"
    by blast
qed

subsection \<open>C5: durations without a unit\<close>

text \<open>
  The claim as stated fails on the token \<^verbatim>\<open>0\<close>: it consists of digits only and converts,
  to the zero duration (the special case at the head of \<^verbatim>\<open>time.ParseDuration\<close>).
\<close>

theorem C5_counterexample:
  "\<forall>L cur. list_all isDigit ''0'' \<and> setValue L TDuration ''0'' cur = (None, VInt 0)"
  by (simp add: setValue_def intKinds_def ParseDuration_def isDigit_def)


text \<open>
  C5, amended.  For a binding of duration type, a token that consists of digits only is a
  conversion error that leaves the variable as it was, unless the token is exactly
  \<^verbatim>\<open>0\<close>, which converts to the zero duration.  A token that converts is, after its sign,
  either \<^verbatim>\<open>0\<close> or a string with a unit in it (a character that is neither a digit nor the
  point); the compound tokens \<^verbatim>\<open>1h30m\<close> and \<^verbatim>\<open>500ms\<close> convert, to 5400000000000 and
  500000000 nanoseconds.
\<close>

theorem C5_duration_digits_only:
  "(list_all isDigit tok \<and> tok \<noteq> ''0'' \<longrightarrow> (\<exists>e. setValue L TDuration tok cur = (Some e, cur)))
   \<and> (\<forall>w. setValue L TDuration tok cur = (None, w) \<longrightarrow>
          stripSign tok = ''0'' \<or> (\<exists>c \<in> set (stripSign tok). unitChar c))
   \<and> setValue L TDuration ''0'' cur = (None, VInt 0)
   \<and> setValue L TDuration ''1h30m'' cur = (None, VInt 5400000000000)
   \<and> setValue L TDuration ''500ms'' cur = (None, VInt 500000000)"
proof (intro conjI impI)
  assume "list_all isDigit tok \<and> tok \<noteq> ''0''"
  then obtain e where "ParseDuration L tok = Inl e" using ParseDuration_digits by blast
  then show "\<exists>e. setValue L TDuration tok cur = (Some e, cur)"
    by (simp add: setValue_def intKinds_def)
next
  show "\<forall>w. setValue L TDuration tok cur = (None, w) \<longrightarrow>
          stripSign tok = ''0'' \<or> (\<exists>c \<in> set (stripSign tok). unitChar c)"
  proof (intro allI impI)
    fix w assume "setValue L TDuration tok cur = (None, w)"
    then obtain d where "ParseDuration L tok = Inr d"
      by (auto simp: setValue_def intKinds_def split: sum.splits)
    then show "stripSign tok = ''0'' \<or> (\<exists>c \<in> set (stripSign tok). unitChar c)"
      by (rule ParseDuration_ok_unit)
  qed
next
  show "setValue L TDuration ''0'' cur = (None, VInt 0)"
    by (simp add: setValue_def intKinds_def ParseDuration_def)
next
  show "setValue L TDuration ''1h30m'' cur = (None, VInt 5400000000000)"
    by (simp add: setValue_def intKinds_def ParseDuration_def durationGroup_def fractionPart_def
        isDigit_def digitVal_def unitChar_def unitMap_def)
next
  show "setValue L TDuration ''500ms'' cur = (None, VInt 500000000)"
    by (simp add: setValue_def intKinds_def ParseDuration_def durationGroup_def fractionPart_def
        isDigit_def digitVal_def unitChar_def unitMap_def)
qed

theorem C5_witness:
  "\<forall>L cur. list_all isDigit ''30'' \<and> ''30'' \<noteq> ''0''
     \<and> (\<exists>e. setValue L TDuration ''30'' cur = (Some e, cur))"
proof (intro allI)
  fix L cur
  have h: "list_all isDigit ''30'' \<and> ''30'' \<noteq> ''0''" by (simp add: isDigit_def)
  with C5_duration_digits_only [of "''30''" L cur] show "list_all isDigit ''30'' \<and> ''30'' \<noteq> ''0''
     \<and> (\<exists>e. setValue L TDuration ''30'' cur = (Some e, cur))" by blast
qed

subsection \<open>C6: the four spellings of a boolean flag\<close>

text \<open>
  The claim as stated fails.  In \<open>aliasExample\<close> the root binds the boolean \<^verbatim>\<open>verbose\<close> with
  the alias \<^verbatim>\<open>v\<close> and the subcommand binds \<^verbatim>\<open>version\<close> with the same alias.  The effective
  flag set of the subcommand lists \<^verbatim>\<open>version\<close> before \<^verbatim>\<open>verbose\<close>, so the token \<^verbatim>\<open>-v\<close> sets
  \<^verbatim>\<open>version\<close>: the variable of \<^verbatim>\<open>verbose\<close> stays \<open>false\<close> and its binding is not marked, while
  \<^verbatim>\<open>--verbose\<close> does set it.
\<close>

theorem C6_counterexample:
  "names (flagObjs aliasExample 0) = [''verbose'', ''v'']
   \<and> flagType (flagObjs aliasExample 0) = TBool
   \<and> valuePtr (flagObjs aliasExample 0) = 0
   \<and> getAllFlags aliasExample 1 = Some [1, 0]
   \<and> (\<forall>L. \<exists>st1 st2. Parse L [1, 0] [''-v''] aliasExample = (Inr [], st1)
          \<and> vars st1 0 = VBool False \<and> \<not> wasSet (flagObjs st1 0)
          \<and> vars st1 1 = VBool True \<and> wasSet (flagObjs st1 1)
          \<and> Parse L [1, 0] [''--verbose''] aliasExample = (Inr [], st2)
          \<and> vars st2 0 = VBool True \<and> wasSet (flagObjs st2 0))"
proof -
  have n: "names (flagObjs aliasExample 0) = [''verbose'', ''v'']"
    "flagType (flagObjs aliasExample 0) = TBool" "valuePtr (flagObjs aliasExample 0) = 0"
    by (simp_all add: aliasExample_def newFlag_def)
  have a: "ancestorsLoop (cmds aliasExample) (Some 1) [] = Some [0, 1]"
    by (simp add: ancestorsLoop.simps aliasExample_def Cmd_def)
  have g: "getAllFlags aliasExample 1 = Some [1, 0]"
    using a by (simp add: getAllFlags_def collectFlags_def seeFlag_def PrimaryName_def
        aliasExample_def newFlag_def)
  have v: "vars aliasExample = (\<lambda>_. VBool False)"
    by (simp add: aliasExample_def initState_def zeroValue_def)
  have w: "\<not> wasSet (flagObjs aliasExample 0)" by (simp add: aliasExample_def newFlag_def)
  have g1: "GetFlag aliasExample [1, 0] ''v'' = Some 1"
    by (simp add: GetFlag_def HasName_def aliasExample_def newFlag_def)
  have g2: "GetFlag aliasExample [1, 0] ''verbose'' = Some 0"
    by (simp add: GetFlag_def HasName_def aliasExample_def newFlag_def)
  have k: "kindOf (flagType (flagObjs aliasExample 1)) = KBool"
    "kindOf (flagType (flagObjs aliasExample 0)) = KBool"
    "valuePtr (flagObjs aliasExample 1) = 1"
    by (simp_all add: aliasExample_def newFlag_def)
  have p1: "Parse L [1, 0] [''-v''] aliasExample =
            (Inr [], markSet 1 (aliasExample\<lparr>vars := (vars aliasExample)(1 := VBool True)\<rparr>))" for L
    using Parse_bare_bool [of "''-v''" "''v''" aliasExample "[1, 0]" 1 L] g1 k
    by (simp add: HasPrefix_def splitFlag_def)
  have p2: "Parse L [1, 0] [''--verbose''] aliasExample =
            (Inr [], markSet 0 (aliasExample\<lparr>vars := (vars aliasExample)(0 := VBool True)\<rparr>))" for L
    using Parse_bare_bool [of "''--verbose''" "''verbose''" aliasExample "[1, 0]" 0 L] g2 k n
    by (simp add: HasPrefix_def splitFlag_def)
  have "\<exists>st1 st2. Parse L [1, 0] [''-v''] aliasExample = (Inr [], st1)
          \<and> vars st1 0 = VBool False \<and> \<not> wasSet (flagObjs st1 0)
          \<and> vars st1 1 = VBool True \<and> wasSet (flagObjs st1 1)
          \<and> Parse L [1, 0] [''--verbose''] aliasExample = (Inr [], st2)
          \<and> vars st2 0 = VBool True \<and> wasSet (flagObjs st2 0)" for L
    unfolding p1 p2 using v w by (simp add: markSet_def)
  with n g show ?thesis by blast
qed

text \<open>
  C6, amended.  For a boolean binding named \<^verbatim>\<open>verbose\<close> with the alias \<^verbatim>\<open>v\<close>, in a flag set in
  which no binding listed before it has the name \<^verbatim>\<open>verbose\<close> or the name \<^verbatim>\<open>v\<close>: each of the
  tokens \<^verbatim>\<open>-v\<close>, \<^verbatim>\<open>-v=true\<close>, \<^verbatim>\<open>--verbose\<close> and \<^verbatim>\<open>--verbose=true\<close> parses without error to one
  and the same state, in which the caller's variable holds \<open>true\<close> and the binding is marked
  as set.
\<close>

theorem C6_boolean_forms_agree:
  assumes "names (flagObjs st p) = [''verbose'', ''v'']"
    and "kindOf (flagType (flagObjs st p)) = KBool"
    and "fs = before @ p # after"
    and "\<forall>q \<in> set before. ''verbose'' \<notin> set (names (flagObjs st q))
                          \<and> ''v'' \<notin> set (names (flagObjs st q))"
  shows "\<exists>st'. Parse L fs [''-v''] st = (Inr [], st')
             \<and> Parse L fs [''-v=true''] st = (Inr [], st')
             \<and> Parse L fs [''--verbose''] st = (Inr [], st')
             \<and> Parse L fs [''--verbose=true''] st = (Inr [], st')
             \<and> vars st' (valuePtr (flagObjs st p)) = VBool True
             \<and> wasSet (flagObjs st' p)
             \<and> st' = markSet p (st\<lparr>vars := (vars st)(valuePtr (flagObjs st p) := VBool True)\<rparr>)"
proof -
  let ?st' = "markSet p (st\<lparr>vars := (vars st)(valuePtr (flagObjs st p) := VBool True)\<rparr>)"
  have gl: "GetFlag st fs ''verbose'' = Some p"
    unfolding GetFlag_def assms(3) using assms(1,4) by (intro find_first) (simp_all add: HasName_def)
  have gs: "GetFlag st fs ''v'' = Some p"
    unfolding GetFlag_def assms(3) using assms(1,4) by (intro find_first) (simp_all add: HasName_def)
  have s1: "splitFlag ''-v'' = (''v'', [], False)" by (simp add: splitFlag_def HasPrefix_def)
  have s2: "splitFlag ''-v=true'' = (''v'', ''true'', True)" by (simp add: splitFlag_def HasPrefix_def)
  have s3: "splitFlag ''--verbose'' = (''verbose'', [], False)" by (simp add: splitFlag_def HasPrefix_def)
  have s4: "splitFlag ''--verbose=true'' = (''verbose'', ''true'', True)"
    by (simp add: splitFlag_def HasPrefix_def)
  have p1: "HasPrefix ''-v'' ''-''" "HasPrefix ''-v=true'' ''-''" "HasPrefix ''--verbose'' ''-''"
    "HasPrefix ''--verbose=true'' ''-''" by (simp_all add: HasPrefix_def)
  have "Parse L fs [''-v''] st = (Inr [], ?st')"
    using p1(1) s1 gs assms(2) by (rule Parse_bare_bool)
  moreover have "Parse L fs [''-v=true''] st = (Inr [], ?st')"
    using Parse_token_with_value [OF p1(2) s2 gs, of L] setFlagValue_true [OF assms(2), of L]
    by simp
  moreover have "Parse L fs [''--verbose''] st = (Inr [], ?st')"
    using p1(3) s3 gl assms(2) by (rule Parse_bare_bool)
  moreover have "Parse L fs [''--verbose=true''] st = (Inr [], ?st')"
    using Parse_token_with_value [OF p1(4) s4 gl, of L] setFlagValue_true [OF assms(2), of L]
    by simp
  moreover have "vars ?st' (valuePtr (flagObjs st p)) = VBool True" by (simp add: markSet_def)
  moreover have "wasSet (flagObjs ?st' p)" by (simp add: markSet_def)
  ultimately show ?thesis by blast
qed

text \<open>
  In \<open>treeExample\<close> the effective flag set of \<^verbatim>\<open>migrate\<close> lists \<^verbatim>\<open>trace\<close> and the \<^verbatim>\<open>port\<close> of
  \<^verbatim>\<open>db\<close> before the root's \<^verbatim>\<open>verbose\<close>; neither has the name \<^verbatim>\<open>verbose\<close> or \<^verbatim>\<open>v\<close>.
\<close>

theorem C6_witness:
  "names (flagObjs treeExample 0) = [''verbose'', ''v'']
   \<and> kindOf (flagType (flagObjs treeExample 0)) = KBool
   \<and> getAllFlags treeExample 2 = Some ([3, 2] @ 0 # [])
   \<and> ''verbose'' \<notin> set (names (flagObjs treeExample 3)) \<and> ''v'' \<notin> set (names (flagObjs treeExample 3))
   \<and> ''verbose'' \<notin> set (names (flagObjs treeExample 2)) \<and> ''v'' \<notin> set (names (flagObjs treeExample 2))
   \<and> vars treeExample 0 = VBool False \<and> \<not> wasSet (flagObjs treeExample 0)
   \<and> (\<forall>L. \<exists>st'. Parse L [3, 2, 0] [''-v''] treeExample = (Inr [], st')
             \<and> Parse L [3, 2, 0] [''-v=true''] treeExample = (Inr [], st')
             \<and> Parse L [3, 2, 0] [''--verbose''] treeExample = (Inr [], st')
             \<and> Parse L [3, 2, 0] [''--verbose=true''] treeExample = (Inr [], st')
             \<and> vars st' 0 = VBool True
             \<and> wasSet (flagObjs st' 0))"
proof -
  have h1: "names (flagObjs treeExample 0) = [''verbose'', ''v'']"
    by (simp add: treeExample_def newFlag_def)
  have h2: "kindOf (flagType (flagObjs treeExample 0)) = KBool"
    by (simp add: treeExample_def newFlag_def)
  have a: "ancestorsLoop (cmds treeExample) (Some 2) [] = Some [0, 1, 2]"
    by (simp add: ancestorsLoop.simps treeExample_def Cmd_def)
  have g: "getAllFlags treeExample 2 = Some ([3, 2] @ 0 # [])"
    using a by (simp add: getAllFlags_def collectFlags_def seeFlag_def PrimaryName_def
        treeExample_def newFlag_def)
  have n3: "''verbose'' \<notin> set (names (flagObjs treeExample 3)) \<and> ''v'' \<notin> set (names (flagObjs treeExample 3))"
    by (simp add: treeExample_def newFlag_def)
  have n2: "''verbose'' \<notin> set (names (flagObjs treeExample 2)) \<and> ''v'' \<notin> set (names (flagObjs treeExample 2))"
    by (simp add: treeExample_def newFlag_def)
  have h3: "[3, 2, 0] = [3, 2] @ 0 # ([]::nat list)" by simp
  have h4: "\<forall>q \<in> set [3, 2]. ''verbose'' \<notin> set (names (flagObjs treeExample q))
                          \<and> ''v'' \<notin> set (names (flagObjs treeExample q))"
    using n3 n2 by simp
  have h5: "vars treeExample 0 = VBool False"
    by (simp add: treeExample_def initState_def treeTypes_def zeroValue_def)
  have h6: "valuePtr (flagObjs treeExample 0) = 0" "\<not> wasSet (flagObjs treeExample 0)"
    by (simp_all add: treeExample_def newFlag_def)
  have "\<exists>st'. Parse L [3, 2, 0] [''-v''] treeExample = (Inr [], st')
             \<and> Parse L [3, 2, 0] [''-v=true''] treeExample = (Inr [], st')
             \<and> Parse L [3, 2, 0] [''--verbose''] treeExample = (Inr [], st')
             \<and> Parse L [3, 2, 0] [''--verbose=true''] treeExample = (Inr [], st')
             \<and> vars st' 0 = VBool True
             \<and> wasSet (flagObjs st' 0)" for L
    using C6_boolean_forms_agree [OF h1 h2 h3 h4, of L] unfolding h6(1) by blast
  with h1 h2 g n3 n2 h5 h6(2) show ?thesis by blast
qed

subsection \<open>C7: integer conversion enforces the declared width\<close>

text \<open>
  C7.  For a binding of a signed integer type (other than a duration) the conversion
  succeeds exactly when the token is a base-10 numeral, with an optional sign, of a number
  that fits the width of the type, and the variable then holds that very number; for an
  unsigned type likewise, without sign.  Every other token is an error that leaves the
  variable as it was: nothing is truncated.  In particular the token \<^verbatim>\<open>200\<close> on an
  \<^verbatim>\<open>int8\<close> binding is a range error and the state is unchanged.
\<close>

theorem C7_integer_width_enforced:
  "(kindOf t \<in> set intKinds \<and> t \<noteq> TDuration \<longrightarrow>
      (\<forall>v. setValue L t tok cur = (None, VInt v) \<longleftrightarrow> decimalInt tok = Some v \<and> fitsInt (Bits t) v)
    \<and> (\<forall>w. setValue L t tok cur = (None, w) \<longrightarrow> (\<exists>v. w = VInt v))
    \<and> (\<forall>e w. setValue L t tok cur = (Some e, w) \<longrightarrow> w = cur))
 \<and> (kindOf t \<in> set uintKinds \<longrightarrow>
      (\<forall>n. setValue L t tok cur = (None, VUint n) \<longleftrightarrow> decimalNat tok = Some n \<and> fitsUint (Bits t) n)
    \<and> (\<forall>w. setValue L t tok cur = (None, w) \<longrightarrow> (\<exists>n. w = VUint n))
    \<and> (\<forall>e w. setValue L t tok cur = (Some e, w) \<longrightarrow> w = cur))
 \<and> (flagType (flagObjs st p) = TInt8 \<longrightarrow>
      setFlagValue L p ''200'' st = (Some (NumError ''ParseInt'' ''200'' ErrRange), st))"
proof (intro conjI impI)
  assume a: "kindOf t \<in> set intKinds \<and> t \<noteq> TDuration"
  then have sv: "setValue L t tok cur =
      (case ParseInt tok (Bits t) of Inl err \<Rightarrow> (Some err, cur) | Inr v \<Rightarrow> (None, VInt v))"
    by (simp add: setValue_int)
  from a have b: "0 < Bits t" "Bits t \<le> 64" using Bits_int by auto
  show "\<forall>v. setValue L t tok cur = (None, VInt v) \<longleftrightarrow> decimalInt tok = Some v \<and> fitsInt (Bits t) v"
  proof
    fix v
    have "ParseInt tok (Bits t) = Inr v \<longleftrightarrow> decimalInt tok = Some v \<and> fitsInt (Bits t) v"
      unfolding fitsInt_def by (rule ParseInt_Inr [OF b])
    then show "setValue L t tok cur = (None, VInt v) \<longleftrightarrow> decimalInt tok = Some v \<and> fitsInt (Bits t) v"
      unfolding sv by (cases "ParseInt tok (Bits t)") simp_all
  qed
  show "\<forall>w. setValue L t tok cur = (None, w) \<longrightarrow> (\<exists>v. w = VInt v)"
    unfolding sv by (simp split: sum.splits)
  show "\<forall>e w. setValue L t tok cur = (Some e, w) \<longrightarrow> w = cur"
    unfolding sv by (simp split: sum.splits)
next
  assume a: "kindOf t \<in> set uintKinds"
  then have sv: "setValue L t tok cur =
      (case ParseUint tok (Bits t) of Inl err \<Rightarrow> (Some err, cur) | Inr v \<Rightarrow> (None, VUint v))"
    by (simp add: setValue_uint)
  from a have b: "Bits t \<le> 64" by (rule Bits_uint)
  show "\<forall>n. setValue L t tok cur = (None, VUint n) \<longleftrightarrow> decimalNat tok = Some n \<and> fitsUint (Bits t) n"
  proof
    fix n
    have "ParseUint tok (Bits t) = Inr n \<longleftrightarrow> decimalNat tok = Some n \<and> fitsUint (Bits t) n"
      unfolding fitsUint_def by (rule ParseUint_Inr [OF b])
    then show "setValue L t tok cur = (None, VUint n) \<longleftrightarrow> decimalNat tok = Some n \<and> fitsUint (Bits t) n"
      unfolding sv by (cases "ParseUint tok (Bits t)") simp_all
  qed
  show "\<forall>w. setValue L t tok cur = (None, w) \<longrightarrow> (\<exists>n. w = VUint n)"
    unfolding sv by (simp split: sum.splits)
  show "\<forall>e w. setValue L t tok cur = (Some e, w) \<longrightarrow> w = cur"
    unfolding sv by (simp split: sum.splits)
next
  assume "flagType (flagObjs st p) = TInt8"
  then show "setFlagValue L p ''200'' st = (Some (NumError ''ParseInt'' ''200'' ErrRange), st)"
    by (simp add: setFlagValue_def setValue_def intKinds_def ParseInt_def ParseUint_def
        isDigit_def digitVal_def maxUint64_def)
qed

text \<open>
  The theorem at work: \<^verbatim>\<open>-128\<close> on an \<^verbatim>\<open>int8\<close>, \<^verbatim>\<open>65535\<close> on a \<^verbatim>\<open>uint16\<close>, and the overflow
  scenario, where the token \<^verbatim>\<open>--level=200\<close> is refused and the variable keeps its 5.
\<close>

theorem C7_witness:
  "\<forall>L cur. kindOf TInt8 \<in> set intKinds \<and> TInt8 \<noteq> TDuration
     \<and> decimalInt ''-128'' = Some (- 128) \<and> fitsInt (Bits TInt8) (- 128)
     \<and> setValue L TInt8 ''-128'' cur = (None, VInt (- 128))
     \<and> kindOf TUint16 \<in> set uintKinds
     \<and> decimalNat ''65535'' = Some 65535 \<and> fitsUint (Bits TUint16) 65535
     \<and> setValue L TUint16 ''65535'' cur = (None, VUint 65535)
     \<and> flagType (flagObjs int8Example 0) = TInt8
     \<and> setFlagValue L 0 ''200'' int8Example = (Some (NumError ''ParseInt'' ''200'' ErrRange), int8Example)
     \<and> Parse L [0] [''--level=200''] int8Example =
         (Inl (InvalidValue ''200'' ''level'' (NumError ''ParseInt'' ''200'' ErrRange)), int8Example)
     \<and> vars int8Example 0 = VInt 5"
proof (intro allI)
  fix L cur
  have h1: "kindOf TInt8 \<in> set intKinds \<and> TInt8 \<noteq> TDuration" by (simp add: intKinds_def)
  have h2: "decimalInt ''-128'' = Some (- 128) \<and> fitsInt (Bits TInt8) (- 128)"
    by (simp add: decimalInt_def decimalNat_def fitsInt_def isDigit_def digitVal_def)
  have h3: "kindOf TUint16 \<in> set uintKinds" by (simp add: uintKinds_def)
  have h4: "decimalNat ''65535'' = Some 65535 \<and> fitsUint (Bits TUint16) 65535"
    by (simp add: decimalNat_def fitsUint_def isDigit_def digitVal_def)
  from C7_integer_width_enforced [of TInt8 L "''-128''" cur] h1 h2
  have r1: "setValue L TInt8 ''-128'' cur = (None, VInt (- 128))" by blast
  from C7_integer_width_enforced [of TUint16 L "''65535''" cur] h3 h4
  have r2: "setValue L TUint16 ''65535'' cur = (None, VUint 65535)" by blast
  have h5: "flagType (flagObjs int8Example 0) = TInt8"
    by (simp add: int8Example_def newFlag_def)
  from C7_integer_width_enforced [of TInt8 L "''200''" cur int8Example 0] h5
  have r3: "setFlagValue L 0 ''200'' int8Example = (Some (NumError ''ParseInt'' ''200'' ErrRange), int8Example)"
    by blast
  have g: "GetFlag int8Example [0] ''level'' = Some 0"
    by (simp add: GetFlag_def HasName_def int8Example_def newFlag_def)
  have r4: "Parse L [0] [''--level=200''] int8Example =
         (Inl (InvalidValue ''200'' ''level'' (NumError ''ParseInt'' ''200'' ErrRange)), int8Example)"
    using g h5 r3 by (simp add: Parse_def splitFlag_def HasPrefix_def)
  have r5: "vars int8Example 0 = VInt 5" by (simp add: int8Example_def)
  from h1 h2 h3 h4 h5 r1 r2 r3 r4 r5 show "kindOf TInt8 \<in> set intKinds \<and> TInt8 \<noteq> TDuration
     \<and> decimalInt ''-128'' = Some (- 128) \<and> fitsInt (Bits TInt8) (- 128)
     \<and> setValue L TInt8 ''-128'' cur = (None, VInt (- 128))
     \<and> kindOf TUint16 \<in> set uintKinds
     \<and> decimalNat ''65535'' = Some 65535 \<and> fitsUint (Bits TUint16) 65535
     \<and> setValue L TUint16 ''65535'' cur = (None, VUint 65535)
     \<and> flagType (flagObjs int8Example 0) = TInt8
     \<and> setFlagValue L 0 ''200'' int8Example = (Some (NumError ''ParseInt'' ''200'' ErrRange), int8Example)
     \<and> Parse L [0] [''--level=200''] int8Example =
         (Inl (InvalidValue ''200'' ''level'' (NumError ''ParseInt'' ''200'' ErrRange)), int8Example)
     \<and> vars int8Example 0 = VInt 5" by blast
qed

subsection \<open>C8: the help token\<close>

text \<open>
  C8.  For a command with help enabled and an argument vector that holds the token
  \<^verbatim>\<open>--\<close> followed by the help flag's name, or \<^verbatim>\<open>-\<close> followed by its short name, anywhere:
  \<^verbatim>\<open>execute\<close> returns nil, and all it does is show the help of the target command (whose walk
  to the root is assumed to end).  The caller's variables and the flag objects, with their
  set marks, are as before; no flag is parsed, no required flag checked, no hook and no
  handler called, whatever the other tokens are.
\<close>

theorem C8_help_preempts:
  assumes "helpEnabled (cmds st c)"
    and "''--'' @ helpFlag (cmds st c) \<in> set argv \<or> ''-'' @ helpShort (cmds st c) \<in> set argv"
    and "ancestorsLoop (cmds st) (Some (helpTarget st c argv)) [] = Some anc"
  shows "\<exists>st'. execute L c argv st = Some (Return None, st')
       \<and> vars st' = vars st \<and> flagObjs st' = flagObjs st \<and> cmds st' = cmds st
       \<and> trace st' = trace st @ [EvHelp (helpTarget st c argv)]"
proof -
  have h: "\<exists>arg \<in> set argv. arg = ''--'' @ helpFlag (cmds st c) \<or> arg = ''-'' @ helpShort (cmds st c)"
    using assms(2) by auto
  have "execute L c argv st =
        map_option (\<lambda>st'. (Return None, st')) (showHelp (helpTarget st c argv) st)"
    using assms(1) h by (subst execute.simps) (simp del: execute.simps)
  then have "execute L c argv st =
        Some (Return None, st\<lparr>trace := trace st @ [EvHelp (helpTarget st c argv)]\<rparr>)"
    by (simp add: showHelp_chain [OF assms(3)] del: execute.simps)
  then show ?thesis by simp
qed

text \<open>
  In the three-level tree (help is on by default, with the names \<^verbatim>\<open>help\<close> and \<^verbatim>\<open>h\<close>): the
  vector \<^verbatim>\<open>--port=x db --help\<close>, whose first token would not convert, shows the help of
  \<^verbatim>\<open>db\<close>; the vector \<^verbatim>\<open>-h\<close> shows the help of the root.
\<close>

theorem C8_witness:
  "helpEnabled (cmds treeExample 0)
   \<and> helpFlag (cmds treeExample 0) = ''help'' \<and> helpShort (cmds treeExample 0) = ''h''
   \<and> helpTarget treeExample 0 [''--port=x'', ''db'', ''--help''] = 1
   \<and> ancestorsLoop (cmds treeExample) (Some 1) [] = Some [0, 1]
   \<and> (\<forall>L. \<exists>st'. execute L 0 [''--port=x'', ''db'', ''--help''] treeExample = Some (Return None, st')
         \<and> vars st' = vars treeExample \<and> flagObjs st' = flagObjs treeExample
         \<and> trace st' = [EvHelp 1])
   \<and> helpTarget treeExample 0 [''-h''] = 0
   \<and> ancestorsLoop (cmds treeExample) (Some 0) [] = Some [0]
   \<and> (\<forall>L. \<exists>st'. execute L 0 [''-h''] treeExample = Some (Return None, st')
         \<and> vars st' = vars treeExample \<and> flagObjs st' = flagObjs treeExample
         \<and> trace st' = [EvHelp 0])"
proof -
  have e: "helpEnabled (cmds treeExample 0)"
    and f: "helpFlag (cmds treeExample 0) = ''help''" and s: "helpShort (cmds treeExample 0) = ''h''"
    by (simp_all add: treeExample_def Cmd_def)
  have t0: "trace treeExample = []" by (simp add: treeExample_def initState_def)
  have t1: "helpTarget treeExample 0 [''--port=x'', ''db'', ''--help''] = 1"
    by (simp add: helpTarget_def HasPrefix_def treeExample_def Cmd_def)
  have a1: "ancestorsLoop (cmds treeExample) (Some 1) [] = Some [0, 1]"
    by (simp add: ancestorsLoop.simps treeExample_def Cmd_def)
  have m1: "''--'' @ helpFlag (cmds treeExample 0) \<in> set [''--port=x'', ''db'', ''--help'']
            \<or> ''-'' @ helpShort (cmds treeExample 0) \<in> set [''--port=x'', ''db'', ''--help'']"
    by (simp add: f)
  have r1: "\<exists>st'. execute L 0 [''--port=x'', ''db'', ''--help''] treeExample = Some (Return None, st')
         \<and> vars st' = vars treeExample \<and> flagObjs st' = flagObjs treeExample
         \<and> trace st' = [EvHelp 1]" for L
  proof -
    have "ancestorsLoop (cmds treeExample)
            (Some (helpTarget treeExample 0 [''--port=x'', ''db'', ''--help''])) [] = Some [0, 1]"
      using a1 by (simp only: t1)
    from C8_help_preempts [OF e m1 this, of L]
    have "\<exists>st'. execute L 0 [''--port=x'', ''db'', ''--help''] treeExample = Some (Return None, st')
         \<and> vars st' = vars treeExample \<and> flagObjs st' = flagObjs treeExample
         \<and> cmds st' = cmds treeExample \<and> trace st' = [EvHelp 1]"
      by (simp only: t1 t0 append_Nil)
    then show ?thesis by blast
  qed
  have t2: "helpTarget treeExample 0 [''-h''] = 0"
    by (simp add: helpTarget_def HasPrefix_def)
  have a2: "ancestorsLoop (cmds treeExample) (Some 0) [] = Some [0]"
    by (simp add: ancestorsLoop.simps treeExample_def Cmd_def)
  have m2: "''--'' @ helpFlag (cmds treeExample 0) \<in> set [''-h'']
            \<or> ''-'' @ helpShort (cmds treeExample 0) \<in> set [''-h'']"
    by (simp add: s)
  have r2: "\<exists>st'. execute L 0 [''-h''] treeExample = Some (Return None, st')
         \<and> vars st' = vars treeExample \<and> flagObjs st' = flagObjs treeExample
         \<and> trace st' = [EvHelp 0]" for L
  proof -
    have "ancestorsLoop (cmds treeExample) (Some (helpTarget treeExample 0 [''-h''])) [] = Some [0]"
      using a2 by (simp only: t2)
    from C8_help_preempts [OF e m2 this, of L]
    have "\<exists>st'. execute L 0 [''-h''] treeExample = Some (Return None, st')
         \<and> vars st' = vars treeExample \<and> flagObjs st' = flagObjs treeExample
         \<and> cmds st' = cmds treeExample \<and> trace st' = [EvHelp 0]"
      by (simp only: t2 t0 append_Nil)
    then show ?thesis by blast
  qed
  from e f s t1 a1 r1 t2 a2 r2 show ?thesis by blast
qed

subsection \<open>C9: parsing is not atomic\<close>

text \<open>
  C9.  Parsing a vector is parsing a prefix and then the rest from the state the prefix
  left, so a failure in the rest undoes nothing.  In the three-level tree, at the root: the
  token \<^verbatim>\<open>--port=9000\<close> followed by an unknown flag, by a flag without its value, or by a
  value that does not convert, gives the error, and yet the variable of \<^verbatim>\<open>port\<close>, 0 before,
  is 9000 afterwards and the binding is marked as set.
\<close>

theorem C9_parse_not_atomic:
  "Parse L fs (pre @ post) st =
     (case Parse L fs pre st of
        (Inl e, st') \<Rightarrow> (Inl e, st')
      | (Inr rem, st') \<Rightarrow> ParseLoop L fs post rem st')
   \<and> vars treeExample 1 = VInt 0
   \<and> \<not> wasSet (flagObjs treeExample 1)
   \<and> Parse L [0, 1] [''--port=9000'', ''--bogus''] treeExample =
         (Inl (UnknownFlag ''bogus''), portSetExample)
   \<and> Parse L [0, 1] [''--port=9000'', ''--port''] treeExample =
         (Inl (RequiresValue ''port''), portSetExample)
   \<and> Parse L [0, 1] [''--port=9000'', ''--port=abc''] treeExample =
         (Inl (InvalidValue ''abc'' ''port'' (NumError ''ParseInt'' ''abc'' ErrSyntax)), portSetExample)
   \<and> vars portSetExample 1 = VInt 9000
   \<and> wasSet (flagObjs portSetExample 1)"
proof -
  have comp: "Parse L fs (pre @ post) st =
     (case Parse L fs pre st of
        (Inl e, st') \<Rightarrow> (Inl e, st')
      | (Inr rem, st') \<Rightarrow> ParseLoop L fs post rem st')"
    unfolding Parse_def by (rule ParseLoop_append)
  have v0: "vars treeExample 1 = VInt 0"
    by (simp add: treeExample_def initState_def treeTypes_def zeroValue_def intKinds_def)
  have w0: "\<not> wasSet (flagObjs treeExample 1)"
    by (simp add: treeExample_def newFlag_def)
  have g: "GetFlag treeExample [0, 1] ''port'' = Some 1"
    by (simp add: GetFlag_def HasName_def treeExample_def newFlag_def)
  have k: "kindOf (flagType (flagObjs treeExample 1)) = KInt"
    by (simp add: treeExample_def newFlag_def)
  have sv: "setFlagValue L 1 ''9000'' treeExample =
            (None, treeExample\<lparr>vars := (vars treeExample)(1 := VInt 9000)\<rparr>)"
    by (simp add: setFlagValue_def setValue_def intKinds_def ParseInt_def ParseUint_def
        isDigit_def digitVal_def maxUint64_def treeExample_def newFlag_def)
  have first: "Parse L [0, 1] [''--port=9000''] treeExample = (Inr [], portSetExample)"
    using g k sv by (simp add: Parse_def splitFlag_def HasPrefix_def portSetExample_def)
  have g': "GetFlag portSetExample [0, 1] ''port'' = Some 1"
    by (simp add: GetFlag_def HasName_def portSetExample_def markSet_def treeExample_def newFlag_def)
  have gb: "GetFlag portSetExample [0, 1] ''bogus'' = None"
    by (simp add: GetFlag_def HasName_def portSetExample_def markSet_def treeExample_def newFlag_def)
  have k': "kindOf (flagType (flagObjs portSetExample 1)) = KInt"
    by (simp add: portSetExample_def markSet_def treeExample_def newFlag_def)
  have sv': "setFlagValue L 1 ''abc'' portSetExample =
            (Some (NumError ''ParseInt'' ''abc'' ErrSyntax), portSetExample)"
    by (simp add: setFlagValue_def setValue_def intKinds_def ParseInt_def ParseUint_def
        isDigit_def digitVal_def maxUint64_def portSetExample_def markSet_def treeExample_def newFlag_def)
  have e1: "Parse L [0, 1] ([''--port=9000''] @ [''--bogus'']) treeExample =
         (Inl (UnknownFlag ''bogus''), portSetExample)"
    unfolding Parse_def ParseLoop_append first [unfolded Parse_def]
    using gb by (simp add: splitFlag_def HasPrefix_def)
  have e2: "Parse L [0, 1] ([''--port=9000''] @ [''--port'']) treeExample =
         (Inl (RequiresValue ''port''), portSetExample)"
    unfolding Parse_def ParseLoop_append first [unfolded Parse_def]
    using g' k' by (simp add: splitFlag_def HasPrefix_def)
  have e3: "Parse L [0, 1] ([''--port=9000''] @ [''--port=abc'']) treeExample =
         (Inl (InvalidValue ''abc'' ''port'' (NumError ''ParseInt'' ''abc'' ErrSyntax)), portSetExample)"
    unfolding Parse_def ParseLoop_append first [unfolded Parse_def]
    using g' k' sv' by (simp add: splitFlag_def HasPrefix_def)
  have v1: "vars portSetExample 1 = VInt 9000" by (simp add: portSetExample_def markSet_def)
  have w1: "wasSet (flagObjs portSetExample 1)" by (simp add: portSetExample_def markSet_def)
  from comp v0 w0 e1 e2 e3 v1 w1 show ?thesis by simp
qed

subsection \<open>C10: one dash or two\<close>



end
